theory Spec2Isabelle
  imports Main "HOL-Library.AList" "HOL-Library.Monad_Syntax" "HOL-Library.Sublist"
begin

section \<open>JavaScript values\<close>

text \<open>
  The editor of \<^verbatim>\<open>src/app/components/HTMLEditor.tsx\<close> is plain JavaScript over the browser's
  document model.  Strings are \<^typ>\<open>string\<close>; a value that may be \<^verbatim>\<open>null\<close> or
  \<^verbatim>\<open>undefined\<close> is a \<^typ>\<open>string option\<close>.  The operators of the source that depend on
  truthiness are written out: \<^verbatim>\<open>!v\<close> holds for \<^verbatim>\<open>null\<close> and for the empty string, and
  \<^verbatim>\<open>a || b\<close> yields \<^verbatim>\<open>b\<close> exactly when \<^verbatim>\<open>a\<close> is falsy.
\<close>

definition truthy :: "string option \<Rightarrow> bool" where
  "truthy v = (case v of None \<Rightarrow> False | Some s \<Rightarrow> s \<noteq> [])"

definition js_or :: "string \<Rightarrow> string \<Rightarrow> string" where
  "js_or a b = (if a = [] then b else a)"

definition js_or_null :: "string option \<Rightarrow> string \<Rightarrow> string" where
  "js_or_null a b = (case a of None \<Rightarrow> b | Some s \<Rightarrow> js_or s b)"

text \<open>Template literals print an absent field as \<^verbatim>\<open>undefined\<close>.\<close>

definition js_str :: "string option \<Rightarrow> string" where
  "js_str v = (case v of None \<Rightarrow> ''undefined'' | Some s \<Rightarrow> s)"

text \<open>\<^verbatim>\<open>xs[i]\<close> is \<^verbatim>\<open>undefined\<close> outside the array.\<close>

definition js_index :: "'a list \<Rightarrow> int \<Rightarrow> 'a option" where
  "js_index xs i = (if 0 \<le> i \<and> i < int (length xs) then Some (xs ! nat i) else None)"

text \<open>\<^verbatim>\<open>xs.slice(0, e)\<close>: a negative end counts from the end of the array.\<close>

definition js_slice0 :: "'a list \<Rightarrow> int \<Rightarrow> 'a list" where
  "js_slice0 xs e = (if e < 0 then take (nat (int (length xs) + e)) xs else take (nat e) xs)"

text \<open>Decimal printing of the non-negative integers that the source interpolates.\<close>

definition digit_char :: "nat \<Rightarrow> char" where
  "digit_char d = ''0123456789'' ! d"

function show_nat :: "nat \<Rightarrow> string" where
  "show_nat n = (if n < 10 then [digit_char n] else show_nat (n div 10) @ [digit_char (n mod 10)])"
  by pat_completeness auto
termination
  by (relation "measure (\<lambda>n. n)") auto

declare show_nat.simps [simp del]

definition show_int :: "int \<Rightarrow> string" where
  "show_int i = (if i < 0 then CHR ''-'' # show_nat (nat (- i)) else show_nat (nat i))"

text \<open>ASCII white space: tab, line feed, form feed, carriage return, space.\<close>

definition is_space :: "char \<Rightarrow> bool" where
  "is_space c = (c \<in> set [CHR 0x09, CHR 0x0A, CHR 0x0C, CHR 0x0D, CHR 0x20])"

section \<open>JavaScript numbers\<close>

text \<open>
  The drag handlers compute on numbers.  A JavaScript number is a double; the ones that
  occur here are integers that a double holds exactly, the two infinities and
  \<^verbatim>\<open>NaN\<close> (pointer and canvas coordinates are taken as integers, and \<open>-0\<close> is not told
  from \<open>0\<close>: the source only subtracts, compares and prints, which do not tell them apart).
  \<open>to_number\<close> is the rounding of an integer to the nearest double, ties to the even
  significand of 53 bits, and to an infinity from \<open>2 ^ 1024 - 2 ^ 970\<close> on.
\<close>

datatype number = Num int | PosInfinity | NegInfinity | NaN

function bit_length :: "int \<Rightarrow> nat" where
  "bit_length n = (if n \<le> 0 then 0 else Suc (bit_length (n div 2)))"
  by pat_completeness auto
termination
  by (relation "measure nat") auto

declare bit_length.simps [simp del]

text \<open>The nearest double of a non-negative integer; \<^const>\<open>None\<close> beyond the largest double.\<close>

definition nearest_double :: "int \<Rightarrow> int option" where
  "nearest_double n =
     (if bit_length n \<le> 53 then Some n
      else
        (let e = bit_length n - 53; q = n div 2 ^ e; r = n mod 2 ^ e; half = 2 ^ (e - 1);
             m = (if half < r \<or> (r = half \<and> odd q) then q + 1 else q) * 2 ^ e
         in if bit_length m \<le> 1024 then Some m else None))"

definition to_number :: "int \<Rightarrow> number" where
  "to_number i =
     (if 0 \<le> i then (case nearest_double i of None \<Rightarrow> PosInfinity | Some m \<Rightarrow> Num m)
      else (case nearest_double (- i) of None \<Rightarrow> NegInfinity | Some m \<Rightarrow> Num (- m)))"

text \<open>\<^verbatim>\<open>a - b\<close>: the exact difference, rounded.\<close>

fun minus_number :: "number \<Rightarrow> number \<Rightarrow> number" where
  "minus_number NaN b = NaN"
| "minus_number a NaN = NaN"
| "minus_number (Num a) (Num b) = to_number (a - b)"
| "minus_number (Num a) PosInfinity = NegInfinity"
| "minus_number (Num a) NegInfinity = PosInfinity"
| "minus_number PosInfinity PosInfinity = NaN"
| "minus_number PosInfinity b = PosInfinity"
| "minus_number NegInfinity NegInfinity = NaN"
| "minus_number NegInfinity b = NegInfinity"

text \<open>
  The template literal \<^verbatim>\<open>${Math.max(0, Math.min(v, 670))}px\<close> of \<^verbatim>\<open>handleMove\<close>:
  \<^verbatim>\<open>Math.min\<close> and \<^verbatim>\<open>Math.max\<close> yield \<^verbatim>\<open>NaN\<close> when an argument is \<^verbatim>\<open>NaN\<close>, and
  an integer from 0 to 670 prints in decimal.
\<close>

definition clamped_px :: "number \<Rightarrow> string" where
  "clamped_px v =
     (case v of
        Num i \<Rightarrow> show_int (max 0 (min i 670))
      | PosInfinity \<Rightarrow> ''670''
      | NegInfinity \<Rightarrow> ''0''
      | NaN \<Rightarrow> ''NaN'') @ ''px''"

text \<open>
  \<^verbatim>\<open>parseInt(string)\<close> with no radix, as the standard defines it: leading white space and
  line terminators are dropped, then an optional sign; a prefix \<^verbatim>\<open>0x\<close> or \<^verbatim>\<open>0X\<close> selects
  radix 16 and is dropped, otherwise the radix is 10; the longest run of digits of that
  radix is read, and the result is \<^verbatim>\<open>NaN\<close> when that run is empty, else the signed value
  as a number.  Every digit counts (the standard lets an implementation read the decimal
  digits after the twentieth as zeros).  Strings are sequences of bytes in UTF-8, so the
  white space beyond ASCII is listed by its encoding: U+00A0, U+1680, U+2000 to U+200A,
  U+2028, U+2029, U+202F, U+205F, U+3000 and U+FEFF.
\<close>

definition white_space :: "string list" where
  "white_space =
     [[CHR 0x09], [CHR 0x0A], [CHR 0x0B], [CHR 0x0C], [CHR 0x0D], [CHR 0x20],
      [CHR 0xC2, CHR 0xA0], [CHR 0xE1, CHR 0x9A, CHR 0x80],
      [CHR 0xE2, CHR 0x80, CHR 0x80], [CHR 0xE2, CHR 0x80, CHR 0x81],
      [CHR 0xE2, CHR 0x80, CHR 0x82], [CHR 0xE2, CHR 0x80, CHR 0x83],
      [CHR 0xE2, CHR 0x80, CHR 0x84], [CHR 0xE2, CHR 0x80, CHR 0x85],
      [CHR 0xE2, CHR 0x80, CHR 0x86], [CHR 0xE2, CHR 0x80, CHR 0x87],
      [CHR 0xE2, CHR 0x80, CHR 0x88], [CHR 0xE2, CHR 0x80, CHR 0x89],
      [CHR 0xE2, CHR 0x80, CHR 0x8A], [CHR 0xE2, CHR 0x80, CHR 0xA8],
      [CHR 0xE2, CHR 0x80, CHR 0xA9], [CHR 0xE2, CHR 0x80, CHR 0xAF],
      [CHR 0xE2, CHR 0x81, CHR 0x9F], [CHR 0xE3, CHR 0x80, CHR 0x80],
      [CHR 0xEF, CHR 0xBB, CHR 0xBF]]"

function trim_start :: "string \<Rightarrow> string" where
  "trim_start s =
     (case find (\<lambda>w. prefix w s) white_space of
        None \<Rightarrow> s
      | Some w \<Rightarrow> trim_start (drop (length w) s))"
  by pat_completeness auto
termination
proof (relation "measure length")
  show "wf (measure length)" by simp
next
  fix s w :: string
  assume "find (\<lambda>w. prefix w s) white_space = Some w"
  then have "w \<in> set white_space" and p: "prefix w s"
    by (auto simp: find_Some_iff)
  then have "w \<noteq> []" by (auto simp: white_space_def)
  with p have "length (drop (length w) s) < length s"
    by (cases s) (auto simp: prefix_def)
  then show "(drop (length w) s, s) \<in> measure length" by simp
qed

declare trim_start.simps [simp del]

definition digit_of :: "int \<Rightarrow> char \<Rightarrow> int option" where
  "digit_of radix c =
     (case map_of (zip ''0123456789abcdefABCDEF''
                       [0, 1, 2, 3, 4, 5, 6, 7, 8, 9, 10, 11, 12, 13, 14, 15, 10, 11, 12, 13, 14, 15]) c of
        None \<Rightarrow> None
      | Some d \<Rightarrow> if d < radix then Some d else None)"

fun leading_digits :: "int \<Rightarrow> string \<Rightarrow> int list" where
  "leading_digits radix [] = []"
| "leading_digits radix (c # cs) =
     (case digit_of radix c of None \<Rightarrow> [] | Some d \<Rightarrow> d # leading_digits radix cs)"

definition parseInt :: "string \<Rightarrow> number" where
  "parseInt inputString =
     (let S = trim_start inputString;
          negative = (take 1 S = ''-'');
          S1 = (if take 1 S = ''-'' \<or> take 1 S = ''+'' then drop 1 S else S);
          hex = (take 2 S1 = ''0x'' \<or> take 2 S1 = ''0X'');
          R = (if hex then 16 else 10);
          Z = leading_digits R (if hex then drop 2 S1 else S1);
          mathInt = foldl (\<lambda>acc d. R * acc + d) 0 Z
      in if Z = [] then NaN
         else to_number (if negative then - mathInt else mathInt))"

text \<open>
  \<^verbatim>\<open>parseInt(v) || 0\<close>: an absent \<^verbatim>\<open>v\<close> is read as the string \<^verbatim>\<open>undefined\<close>, and
  \<^verbatim>\<open>NaN\<close> and \<open>0\<close> are falsy.
\<close>

definition parseInt_or_0 :: "string option \<Rightarrow> number" where
  "parseInt_or_0 v = (case parseInt (js_str v) of NaN \<Rightarrow> Num 0 | n \<Rightarrow> n)"

section \<open>Data model: elements, snapshots, editor state\<close>

text \<open>
  An element is a JavaScript object with the keys \<^verbatim>\<open>id\<close>, \<^verbatim>\<open>type\<close>, \<^verbatim>\<open>tagName\<close>,
  \<^verbatim>\<open>style\<close> and, depending on how it was built, \<^verbatim>\<open>content\<close> or \<^verbatim>\<open>src\<close> and \<^verbatim>\<open>alt\<close>.
  A key that the object does not have is \<^const>\<open>None\<close>.  The \<^verbatim>\<open>style\<close> object is an
  association list in insertion order, which is the order \<^verbatim>\<open>Object.entries\<close> enumerates
  (keys that look like array indices, which JavaScript enumerates first, do not occur among
  CSS property names).  Assigning a key, as in \<^verbatim>\<open>{...style, [prop]: val}\<close>, replaces the value
  in place or appends the key: that is \<^const>\<open>AList.update\<close>.
\<close>

datatype elem_type = TextType | ImageType

record element =
  el_id :: string
  el_type :: elem_type
  content :: "string option"
  src :: "string option"
  alt :: "string option"
  tagName :: string
  style :: "(string \<times> string) list"

record entry =
  entry_elements :: "element list"
  entry_selectedId :: "string option"

record editor =
  elements :: "element list"
  selectedId :: "string option"
  history :: "entry list"
  historyIndex :: int
  isEditingText :: bool
  isDragging :: bool
  dragOffset :: "number \<times> number"

text \<open>The initial values of the \<^verbatim>\<open>useState\<close> hooks.\<close>

definition init :: editor where
  "init = \<lparr>elements = [], selectedId = None, history = [], historyIndex = - 1,
     isEditingText = False, isDragging = False, dragOffset = (Num 0, Num 0)\<rparr>"

text \<open>A handler that reads a field of \<^verbatim>\<open>undefined\<close> throws.\<close>

datatype error = TypeError

section \<open>History\<close>

text \<open>
  \<^verbatim>\<open>saveHistory\<close> (lines 166 to 177).  \<^verbatim>\<open>JSON.parse(JSON.stringify(newElements))\<close> rebuilds the
  elements from their printed form; on the immutable values of this section it is the
  identity (the store of the later section makes the copy explicit).
\<close>

definition saveHistory :: "element list \<Rightarrow> string option \<Rightarrow> editor \<Rightarrow> editor" where
  "saveHistory newElements newSelectedId s =
     (let newHistory = js_slice0 (history s) (historyIndex s + 1)
                       @ [\<lparr>entry_elements = newElements, entry_selectedId = newSelectedId\<rparr>]
      in s\<lparr>history := newHistory, historyIndex := int (length newHistory) - 1\<rparr>)"

text \<open>\<^verbatim>\<open>undo\<close> and \<^verbatim>\<open>redo\<close> (lines 283 to 299).\<close>

definition undo :: "editor \<Rightarrow> error + editor" where
  "undo s =
     (if historyIndex s > 0 then
        (case js_index (history s) (historyIndex s - 1) of
           None \<Rightarrow> Inl TypeError
         | Some state \<Rightarrow>
             Inr (s\<lparr>elements := entry_elements state, selectedId := entry_selectedId state,
                    historyIndex := historyIndex s - 1\<rparr>))
      else Inr s)"

definition redo :: "editor \<Rightarrow> error + editor" where
  "redo s =
     (if historyIndex s < int (length (history s)) - 1 then
        (case js_index (history s) (historyIndex s + 1) of
           None \<Rightarrow> Inl TypeError
         | Some state \<Rightarrow>
             Inr (s\<lparr>elements := entry_elements state, selectedId := entry_selectedId state,
                    historyIndex := historyIndex s + 1\<rparr>))
      else Inr s)"

text \<open>The invariant of the data model: the index lies in \<open>[-1, length - 1]\<close>.\<close>

definition history_ok :: "editor \<Rightarrow> bool" where
  "history_ok s = (- 1 \<le> historyIndex s \<and> historyIndex s < int (length (history s)))"

section \<open>Commands of the controller\<close>

text \<open>
  \<^verbatim>\<open>addElement\<close> (lines 214 to 249); \<open>now\<close> is the value of \<^verbatim>\<open>Date.now()\<close> at the call.
\<close>

definition new_element :: "elem_type \<Rightarrow> nat \<Rightarrow> element" where
  "new_element ty now =
     (case ty of
        TextType \<Rightarrow>
          \<lparr>el_id = ''text-'' @ show_nat now, el_type = TextType, content = Some ''New Text'',
           src = None, alt = None, tagName = ''p'',
           style = [(''position'', ''absolute''), (''left'', ''50px''), (''top'', ''50px''),
                    (''fontSize'', ''16px''), (''color'', ''#000000'')]\<rparr>
      | ImageType \<Rightarrow>
          \<lparr>el_id = ''img-'' @ show_nat now, el_type = ImageType, content = None,
           src = Some ''https://via.placeholder.com/150'', alt = Some ''Image'', tagName = ''img'',
           style = [(''position'', ''absolute''), (''left'', ''50px''), (''top'', ''50px''),
                    (''width'', ''150px''), (''height'', ''auto'')]\<rparr>)"

definition addElement :: "elem_type \<Rightarrow> nat \<Rightarrow> editor \<Rightarrow> editor" where
  "addElement ty now s =
     (let newEl = new_element ty now; newElements = elements s @ [newEl]
      in saveHistory newElements (Some (el_id newEl))
           (s\<lparr>elements := newElements, selectedId := Some (el_id newEl)\<rparr>))"

text \<open>
  \<^verbatim>\<open>deleteElement\<close> (lines 251 to 259); \<open>confirmed\<close> is the answer to the \<^verbatim>\<open>confirm\<close> dialog.
\<close>

definition deleteElement :: "bool \<Rightarrow> editor \<Rightarrow> editor" where
  "deleteElement confirmed s =
     (if \<not> truthy (selectedId s) then s
      else if confirmed then
        (let newElements = filter (\<lambda>el. Some (el_id el) \<noteq> selectedId s) (elements s)
         in saveHistory newElements None (s\<lparr>elements := newElements, selectedId := None\<rparr>))
      else s)"

text \<open>\<^verbatim>\<open>updateProperty\<close> (lines 261 to 273).\<close>

definition set_prop :: "string \<Rightarrow> string \<Rightarrow> element \<Rightarrow> element" where
  "set_prop prop val el =
     (if prop = ''content'' then el\<lparr>content := Some val\<rparr>
      else if prop = ''src'' then el\<lparr>src := Some val\<rparr>
      else if prop = ''alt'' then el\<lparr>alt := Some val\<rparr>
      else el\<lparr>style := AList.update prop val (style el)\<rparr>)"

definition updateProperty :: "string \<Rightarrow> string \<Rightarrow> editor \<Rightarrow> editor" where
  "updateProperty prop val s =
     (if \<not> truthy (selectedId s) then s
      else s\<lparr>elements :=
               map (\<lambda>el. if Some (el_id el) = selectedId s then set_prop prop val el else el)
                 (elements s)\<rparr>)"

text \<open>
  Dragging (lines 301 to 347).  Pointer and canvas coordinates are taken as integers;
  \<open>x\<close> and \<open>y\<close> are the coordinates before \<^verbatim>\<open>Math.max\<close> and \<^verbatim>\<open>Math.min\<close> clamp them.
\<close>

definition handleMouseDown :: "string \<Rightarrow> int \<Rightarrow> int \<Rightarrow> editor \<Rightarrow> editor" where
  "handleMouseDown i clientX clientY s =
     (if isEditingText s then s
      else
        (let s' = s\<lparr>selectedId := Some i, isDragging := True\<rparr>
         in case find (\<lambda>e. el_id e = i) (elements s) of
              None \<Rightarrow> s'
            | Some el \<Rightarrow>
                (let left = parseInt_or_0 (map_of (style el) ''left'');
                     top = parseInt_or_0 (map_of (style el) ''top'')
                 in s'\<lparr>dragOffset := (minus_number (to_number clientX) left,
                                      minus_number (to_number clientY) top)\<rparr>)))"

definition handleMove :: "int \<Rightarrow> int \<Rightarrow> int \<Rightarrow> int \<Rightarrow> editor \<Rightarrow> editor" where
  "handleMove clientX clientY rectLeft rectTop s =
     (if \<not> isDragging s \<or> \<not> truthy (selectedId s) then s
      else
        (let x = minus_number (minus_number (to_number clientX) (to_number rectLeft))
                   (fst (dragOffset s));
             y = minus_number (minus_number (to_number clientY) (to_number rectTop))
                   (snd (dragOffset s))
         in s\<lparr>elements :=
                 map (\<lambda>el. if Some (el_id el) = selectedId s
                            then el\<lparr>style := AList.update ''top'' (clamped_px y)
                                     (AList.update ''left'' (clamped_px x) (style el))\<rparr>
                            else el)
                   (elements s)\<rparr>))"

definition handleUp :: "editor \<Rightarrow> editor" where
  "handleUp s =
     (if isDragging s then saveHistory (elements s) (selectedId s) (s\<lparr>isDragging := False\<rparr>)
      else s)"

text \<open>
  Inline text editing (lines 349 to 363).  \<^verbatim>\<open>handleTextBlur\<close> passes the \<^verbatim>\<open>elements\<close> of
  the current render to \<^verbatim>\<open>saveHistory\<close>, that is the document before the edit.
\<close>

definition handleDoubleClick :: "string \<Rightarrow> editor \<Rightarrow> editor" where
  "handleDoubleClick i s =
     (case find (\<lambda>e. el_id e = i) (elements s) of
        None \<Rightarrow> s
      | Some el \<Rightarrow>
          if el_type el = TextType then s\<lparr>selectedId := Some i, isEditingText := True\<rparr> else s)"

definition handleTextBlur :: "string \<Rightarrow> editor \<Rightarrow> editor" where
  "handleTextBlur innerText s =
     (if isEditingText s \<and> truthy (selectedId s) then
        saveHistory (elements s) (selectedId s)
          ((updateProperty ''content'' innerText s)\<lparr>isEditingText := False\<rparr>)
      else s)"

definition sample_doc :: "element list" where
  "sample_doc = [new_element TextType 7, new_element ImageType 8, new_element TextType 9]"
definition ghost_state :: editor where
  "ghost_state = init\<lparr>selectedId := Some ''ghost''\<rparr>"

section \<open>The document object model\<close>

text \<open>
  The tree the browser hands to the code.  An element has a local name (lower case for
  every element the HTML parser creates), its attributes in source order, and its child
  nodes.  The children that the parser finds inside a \<^verbatim>\<open>template\<close> element are not child
  nodes of it: they live in the separate fragment \<^verbatim>\<open>template.content\<close>, which selectors
  and \<^verbatim>\<open>textContent\<close> do not reach and which \<^verbatim>\<open>innerHTML\<close> prints.
\<close>

datatype node =
    Element (localName: string) (attributes: "(string \<times> string) list")
      (childNodes: "node list") (templateContents: "node list")
  | TextNode string
  | Comment string

text \<open>
  \<^verbatim>\<open>toLowerCase\<close> and \<^verbatim>\<open>toUpperCase\<close> on the ASCII letters; other bytes stay (the names and
  values the claims are about are ASCII).
\<close>

definition upper_letters :: string where
  "upper_letters = ''ABCDEFGHIJKLMNOPQRSTUVWXYZ''"

definition lower_letters :: string where
  "lower_letters = ''abcdefghijklmnopqrstuvwxyz''"

definition to_lower :: "char \<Rightarrow> char" where
  "to_lower c = (case map_of (zip upper_letters lower_letters) c of None \<Rightarrow> c | Some l \<Rightarrow> l)"

definition to_upper :: "char \<Rightarrow> char" where
  "to_upper c = (case map_of (zip lower_letters upper_letters) c of None \<Rightarrow> c | Some u \<Rightarrow> u)"

definition toLowerCase :: "string \<Rightarrow> string" where
  "toLowerCase s = map to_lower s"

definition toUpperCase :: "string \<Rightarrow> string" where
  "toUpperCase s = map to_upper s"

text \<open>\<^verbatim>\<open>s.startsWith(p)\<close> and \<^verbatim>\<open>s.includes(p)\<close>.\<close>

fun startsWith :: "string \<Rightarrow> string \<Rightarrow> bool" where
  "startsWith s [] = True"
| "startsWith [] (p # ps) = False"
| "startsWith (c # cs) (p # ps) = (c = p \<and> startsWith cs ps)"

fun js_includes :: "string \<Rightarrow> string \<Rightarrow> bool" where
  "js_includes [] p = (p = [])"
| "js_includes (c # cs) p = (startsWith (c # cs) p \<or> js_includes cs p)"

definition is_element :: "node \<Rightarrow> bool" where
  "is_element n = (case n of Element _ _ _ _ \<Rightarrow> True | _ \<Rightarrow> False)"

text \<open>\<^verbatim>\<open>el.children\<close>: the child nodes that are elements.\<close>

definition children :: "node \<Rightarrow> node list" where
  "children n = (case n of Element _ _ cs _ \<Rightarrow> filter is_element cs | _ \<Rightarrow> [])"

text \<open>\<^verbatim>\<open>el.tagName\<close> of an HTML element is its name in upper case.\<close>

definition node_tagName :: "node \<Rightarrow> string" where
  "node_tagName n = (case n of Element nm _ _ _ \<Rightarrow> toUpperCase nm | _ \<Rightarrow> [])"

definition getAttribute :: "node \<Rightarrow> string \<Rightarrow> string option" where
  "getAttribute n a = (case n of Element _ as _ _ \<Rightarrow> map_of as a | _ \<Rightarrow> None)"

text \<open>\<^verbatim>\<open>el.textContent\<close>: the text of the descendants, in tree order.\<close>

fun textContent :: "node \<Rightarrow> string" where
  "textContent (Element nm as cs tc) = concat (map textContent cs)"
| "textContent (TextNode t) = t"
| "textContent (Comment t) = []"

text \<open>The elements below a list of nodes, in tree order (what \<^verbatim>\<open>querySelectorAll("*")\<close> lists).\<close>

fun descendants :: "node \<Rightarrow> node list" where
  "descendants (Element nm as cs tc) = Element nm as cs tc # concat (map descendants cs)"
| "descendants (TextNode t) = []"
| "descendants (Comment t) = []"


text \<open>
  What the browser itself computes: the two parsers, the serializer, the inline style of an
  element (\<^verbatim>\<open>el.style[p]\<close>, empty when unset) and its computed style.  \<^verbatim>\<open>setInnerHTML\<close> gives
  the children of a fresh \<^verbatim>\<open>div\<close> after \<^verbatim>\<open>div.innerHTML = html\<close>; \<^verbatim>\<open>parseFromString\<close> gives the
  root element of the document.
\<close>

record browser =
  setInnerHTML :: "string \<Rightarrow> node list"
  getInnerHTML :: "node list \<Rightarrow> string"
  parseFromString :: "string \<Rightarrow> node"
  inlineStyle :: "node \<Rightarrow> string \<Rightarrow> string"
  computedStyle :: "node \<Rightarrow> string \<Rightarrow> string"

section \<open>Sanitizer\<close>

text \<open>
  \<^verbatim>\<open>HTMLSanitizer.sanitize\<close> (lines 25 to 52).  For each dangerous tag in turn,
  \<^verbatim>\<open>querySelectorAll(tag)\<close> lists every element of that name below the root and
  \<^verbatim>\<open>remove()\<close> detaches each from its parent: what stays below the root is the tree without
  the elements of that name.
\<close>

definition dangerous :: "string list" where
  "dangerous = [''script'', ''iframe'', ''object'', ''embed'', ''link'', ''style'']"

definition has_name :: "string \<Rightarrow> node \<Rightarrow> bool" where
  "has_name tag n = (case n of Element nm _ _ _ \<Rightarrow> nm = tag | _ \<Rightarrow> False)"

fun remove_tag :: "string \<Rightarrow> node \<Rightarrow> node" where
  "remove_tag tag (Element nm as cs tc) =
     Element nm as (map (remove_tag tag) (filter (\<lambda>c. \<not> has_name tag c) cs)) tc"
| "remove_tag tag (TextNode t) = TextNode t"
| "remove_tag tag (Comment t) = Comment t"

definition remove_all :: "string \<Rightarrow> node list \<Rightarrow> node list" where
  "remove_all tag ns = map (remove_tag tag) (filter (\<lambda>c. \<not> has_name tag c) ns)"

text \<open>\<^verbatim>\<open>el.removeAttribute(name)\<close> removes the first attribute of that name.\<close>

fun removeAttribute :: "string \<Rightarrow> (string \<times> string) list \<Rightarrow> (string \<times> string) list" where
  "removeAttribute a [] = []"
| "removeAttribute a ((k, v) # kvs) = (if k = a then kvs else (k, v) # removeAttribute a kvs)"

definition strip_handlers :: "(string \<times> string) list \<Rightarrow> (string \<times> string) list" where
  "strip_handlers as =
     foldl (\<lambda>cur (name, v). if startsWith name ''on'' then removeAttribute name cur else cur) as as"

definition strip_javascript :: "(string \<times> string) list \<Rightarrow> (string \<times> string) list" where
  "strip_javascript as =
     foldl (\<lambda>cur attr.
              case map_of cur attr of
                None \<Rightarrow> cur
              | Some val \<Rightarrow>
                  if val \<noteq> [] \<and> js_includes (toLowerCase val) ''javascript:''
                  then removeAttribute attr cur else cur)
       as [''href'', ''src'', ''action'']"

fun clean_attributes :: "node \<Rightarrow> node" where
  "clean_attributes (Element nm as cs tc) =
     Element nm (strip_javascript (strip_handlers as)) (map clean_attributes cs) tc"
| "clean_attributes (TextNode t) = TextNode t"
| "clean_attributes (Comment t) = Comment t"

definition sanitize_nodes :: "node list \<Rightarrow> node list" where
  "sanitize_nodes ns = map clean_attributes (foldl (\<lambda>cur tag. remove_all tag cur) ns dangerous)"

definition sanitize :: "browser \<Rightarrow> string \<Rightarrow> string" where
  "sanitize b html = getInnerHTML b (sanitize_nodes (setInnerHTML b html))"

section \<open>Parser\<close>

text \<open>
  \<^verbatim>\<open>doc.querySelector(".poster")\<close>: the first element in tree order whose class list has the
  token.  The sanitized markup never carries a doctype (\<^verbatim>\<open>innerHTML\<close> drops it), so the
  parsed document is in quirks mode, where class names match without regard to ASCII case.
\<close>

fun split_words :: "string \<Rightarrow> string \<Rightarrow> string list" where
  "split_words cur [] = (if cur = [] then [] else [cur])"
| "split_words cur (c # cs) =
     (if is_space c then (if cur = [] then split_words [] cs else cur # split_words [] cs)
      else split_words (cur @ [c]) cs)"

definition has_class :: "string \<Rightarrow> node \<Rightarrow> bool" where
  "has_class cls n =
     (case getAttribute n ''class'' of
        None \<Rightarrow> False
      | Some v \<Rightarrow> toLowerCase cls \<in> set (map toLowerCase (split_words [] v)))"

definition querySelector_class :: "string \<Rightarrow> node \<Rightarrow> node option" where
  "querySelector_class cls root = find (has_class cls) (descendants root)"

text \<open>\<^verbatim>\<open>doc.body\<close>: the first \<^verbatim>\<open>body\<close> or \<^verbatim>\<open>frameset\<close> child of the root element.\<close>

definition document_body :: "node \<Rightarrow> node option" where
  "document_body root = find (\<lambda>n. has_name ''body'' n \<or> has_name ''frameset'' n) (children root)"

text \<open>\<^verbatim>\<open>HTMLParser.parseNode\<close> (lines 69 to 108); \<open>now\<close> is \<^verbatim>\<open>Date.now()\<close> at the call.\<close>

definition resolve :: "browser \<Rightarrow> node \<Rightarrow> string \<Rightarrow> string \<Rightarrow> string" where
  "resolve b el p dflt = js_or (inlineStyle b el p) (js_or (computedStyle b el p) dflt)"

definition carry :: "browser \<Rightarrow> node \<Rightarrow> string \<Rightarrow> (string \<times> string) list \<Rightarrow> (string \<times> string) list" where
  "carry b el p st = (if inlineStyle b el p \<noteq> [] then AList.update p (inlineStyle b el p) st else st)"

definition baseStyle :: "browser \<Rightarrow> node \<Rightarrow> nat \<Rightarrow> (string \<times> string) list" where
  "baseStyle b el i =
     carry b el ''background'' (carry b el ''height'' (carry b el ''width''
       [(''position'', resolve b el ''position'' ''absolute''),
        (''left'', resolve b el ''left'' (show_nat (50 + i * 20) @ ''px'')),
        (''top'', resolve b el ''top'' (show_nat (50 + i * 20) @ ''px'')),
        (''fontSize'', resolve b el ''fontSize'' ''16px''),
        (''color'', resolve b el ''color'' ''#000000''),
        (''fontWeight'', resolve b el ''fontWeight'' ''normal''),
        (''textAlign'', resolve b el ''textAlign'' ''left'')]))"

definition parseNode :: "browser \<Rightarrow> nat \<Rightarrow> node \<Rightarrow> nat \<Rightarrow> element" where
  "parseNode b now el i =
     (if node_tagName el = ''IMG'' then
        \<lparr>el_id = ''img-'' @ show_nat now @ ''-'' @ show_nat i, el_type = ImageType,
         content = None,
         src = Some (js_or_null (getAttribute el ''src'') ''''),
         alt = Some (js_or_null (getAttribute el ''alt'') ''''),
         tagName = ''img'',
         style = AList.update ''height'' ''auto''
                   (AList.update ''width'' (js_or (inlineStyle b el ''width'') ''100px'')
                      (baseStyle b el i))\<rparr>
      else
        \<lparr>el_id = ''text-'' @ show_nat now @ ''-'' @ show_nat i, el_type = TextType,
         content = Some (js_or (textContent el) ''''),
         src = None, alt = None,
         tagName = toLowerCase (node_tagName el),
         style = baseStyle b el i\<rparr>)"

text \<open>
  \<^verbatim>\<open>HTMLParser.parse\<close> (lines 55 to 67); \<open>clock i\<close> is \<^verbatim>\<open>Date.now()\<close> when child \<open>i\<close> is read.
  The container is the first element of class \<^verbatim>\<open>poster\<close>, else the body; a document
  without a body would make \<^verbatim>\<open>poster.children\<close> throw.
\<close>

definition container :: "browser \<Rightarrow> string \<Rightarrow> node option" where
  "container b html =
     (let sanitized = sanitize b html;
          doc = parseFromString b sanitized
      in case querySelector_class ''poster'' doc of
           Some p \<Rightarrow> Some p
         | None \<Rightarrow> document_body doc)"

definition parse :: "browser \<Rightarrow> (nat \<Rightarrow> nat) \<Rightarrow> string \<Rightarrow> error + element list" where
  "parse b clock html =
     (case container b html of
        None \<Rightarrow> Inl TypeError
      | Some poster \<Rightarrow>
          Inr (map (\<lambda>(i, node). parseNode b (clock i) node i) (enumerate 0 (children poster))))"

section \<open>Exporter\<close>

text \<open>\<^verbatim>\<open>HTMLExporter.export\<close> (lines 112 to 145).\<close>

definition is_upper :: "char \<Rightarrow> bool" where
  "is_upper c = (c \<in> set upper_letters)"

text \<open>\<^verbatim>\<open>k.replace(/([A-Z])/g, "-$1").toLowerCase()\<close>\<close>

definition kebab :: "string \<Rightarrow> string" where
  "kebab k = toLowerCase (concat (map (\<lambda>c. if is_upper c then [CHR ''-'', c] else [c]) k))"







section \<open>The controller as a state machine\<close>

text \<open>
  \<^verbatim>\<open>handleImport\<close> and \<^verbatim>\<open>handlePaste\<close> (lines 179 to 201), given the text that was read.
  A handler that throws leaves the state as it was: every setter comes after the
  statement that can throw.
\<close>

definition load_parsed :: "element list \<Rightarrow> editor \<Rightarrow> editor" where
  "load_parsed parsed s = saveHistory parsed None (s\<lparr>elements := parsed, selectedId := None\<rparr>)"

definition handleImport :: "browser \<Rightarrow> (nat \<Rightarrow> nat) \<Rightarrow> string \<Rightarrow> editor \<Rightarrow> editor" where
  "handleImport b clock html s =
     (case parse b clock html of Inl err \<Rightarrow> s | Inr parsed \<Rightarrow> load_parsed parsed s)"

definition handlePaste :: "browser \<Rightarrow> (nat \<Rightarrow> nat) \<Rightarrow> string option \<Rightarrow> editor \<Rightarrow> editor" where
  "handlePaste b clock html s =
     (case html of
        None \<Rightarrow> s
      | Some h \<Rightarrow> if h = [] then s else handleImport b clock h s)"

definition handleImageUpload :: "string \<Rightarrow> editor \<Rightarrow> editor" where
  "handleImageUpload dataUrl s = (if \<not> truthy (selectedId s) then s else updateProperty ''src'' dataUrl s)"

datatype command =
    Import string "nat \<Rightarrow> nat"
  | Paste "string option" "nat \<Rightarrow> nat"
  | AddElement elem_type nat
  | DeleteElement bool
  | UpdateProperty string string
  | ImageUpload string
  | Undo
  | Redo
  | MouseDown string int int
  | MouseMove int int int int
  | MouseUp
  | DoubleClick string
  | TextBlur string
  | CanvasClick

fun step :: "browser \<Rightarrow> editor \<Rightarrow> command \<Rightarrow> editor" where
  "step b s (Import html clock) = handleImport b clock html s"
| "step b s (Paste html clock) = handlePaste b clock html s"
| "step b s (AddElement ty now) = addElement ty now s"
| "step b s (DeleteElement confirmed) = deleteElement confirmed s"
| "step b s (UpdateProperty p v) = updateProperty p v s"
| "step b s (ImageUpload dataUrl) = handleImageUpload dataUrl s"
| "step b s Undo = (case undo s of Inl err \<Rightarrow> s | Inr s' \<Rightarrow> s')"
| "step b s Redo = (case redo s of Inl err \<Rightarrow> s | Inr s' \<Rightarrow> s')"
| "step b s (MouseDown i x y) = handleMouseDown i x y s"
| "step b s (MouseMove x y l t) = handleMove x y l t s"
| "step b s MouseUp = handleUp s"
| "step b s (DoubleClick i) = handleDoubleClick i s"
| "step b s (TextBlur t) = handleTextBlur t s"
| "step b s CanvasClick = s\<lparr>selectedId := None\<rparr>"

definition run :: "browser \<Rightarrow> editor \<Rightarrow> command list \<Rightarrow> editor" where
  "run b s cmds = foldl (step b) s cmds"

section \<open>A reference browser for closed examples\<close>

text \<open>
  The closed examples below need the browser's functions at concrete markup.  This
  section reads and prints simple markup the way the HTML standard does: tags with
  quoted, unquoted or missing attribute values, void elements, raw-text elements,
  comments, a doctype, \<^verbatim>\<open>template\<close> contents, and the document parser's split into
  \<^verbatim>\<open>head\<close> and \<^verbatim>\<open>body\<close>.  It leaves out what the examples do not use: character references,
  implied end tags, foster parenting, \<^verbatim>\<open>noscript\<close> and foreign content.  No general theorem
  depends on it.
\<close>

datatype token =
    StartTag string "(string \<times> string) list"
  | EndTag string
  | Chars string
  | CommentTok string
  | DoctypeTok

datatype lex_mode =
    LData | LTagOpen | LEndTagOpen | LTagName | LBeforeAttr | LAttrName | LAfterAttrName
  | LBeforeValue | LValueDQ | LValueSQ | LValueUnq | LAfterValue | LSelfClose
  | LBang | LComment | LSkip nat lex_mode | LRaw

text \<open>The lexer collects the pending text in reverse.\<close>

record lexer =
  lmode :: lex_mode
  pending :: string
  closing :: bool
  tname :: string
  tattrs :: "(string \<times> string) list"
  aname :: string
  avalue :: string
  rawname :: string

definition lexer0 :: lexer where
  "lexer0 = \<lparr>lmode = LData, pending = [], closing = False, tname = [], tattrs = [],
     aname = [], avalue = [], rawname = []\<rparr>"

definition is_letter :: "char \<Rightarrow> bool" where
  "is_letter c = (c \<in> set upper_letters \<or> c \<in> set lower_letters)"

definition raw_elements :: "string list" where
  "raw_elements = [''style'', ''script'', ''xmp'', ''iframe'', ''noembed'', ''noframes'',
     ''title'', ''textarea'']"

definition void_elements :: "string list" where
  "void_elements = [''area'', ''base'', ''basefont'', ''bgsound'', ''br'', ''col'', ''embed'',
     ''frame'', ''hr'', ''img'', ''input'', ''keygen'', ''link'', ''meta'', ''param'', ''source'',
     ''track'', ''wbr'']"

definition flush_text :: "lexer \<Rightarrow> token list" where
  "flush_text st = (if pending st = [] then [] else [Chars (rev (pending st))])"

definition push_attr :: "lexer \<Rightarrow> lexer" where
  "push_attr st =
     st\<lparr>tattrs := (if aname st \<in> set (map fst (tattrs st)) then tattrs st
                    else tattrs st @ [(aname st, avalue st)]),
        aname := [], avalue := []\<rparr>"

definition emit_tag :: "lexer \<Rightarrow> token list \<times> lexer" where
  "emit_tag st =
     (if closing st then ([EndTag (tname st)], st\<lparr>lmode := LData, pending := []\<rparr>)
      else ([StartTag (tname st) (tattrs st)],
            if tname st \<in> set raw_elements
            then st\<lparr>lmode := LRaw, pending := [], rawname := tname st\<rparr>
            else st\<lparr>lmode := LData, pending := []\<rparr>))"

definition before_attr :: "lexer \<Rightarrow> char \<Rightarrow> token list \<times> lexer" where
  "before_attr st c =
     (if is_space c then ([], st\<lparr>lmode := LBeforeAttr\<rparr>)
      else if c = CHR ''/'' then ([], st\<lparr>lmode := LSelfClose\<rparr>)
      else if c = CHR ''>'' then emit_tag st
      else ([], st\<lparr>lmode := LAttrName, aname := [to_lower c], avalue := []\<rparr>))"

definition raw_end :: "string \<Rightarrow> string \<Rightarrow> bool" where
  "raw_end nm cs =
     (if toLowerCase (take (Suc (length nm)) cs) = CHR ''/'' # nm then
        (case drop (Suc (length nm)) cs of
           [] \<Rightarrow> False
         | d # _ \<Rightarrow> is_space d \<or> d = CHR ''/'' \<or> d = CHR ''>'')
      else False)"

fun lex_step :: "lex_mode \<Rightarrow> lexer \<Rightarrow> char \<Rightarrow> string \<Rightarrow> token list \<times> lexer" where
  "lex_step LData st c cs =
     (if c = CHR ''<'' then ([], st\<lparr>lmode := LTagOpen\<rparr>)
      else ([], st\<lparr>pending := c # pending st\<rparr>))"
| "lex_step LTagOpen st c cs =
     (if is_letter c then
        (flush_text st, st\<lparr>lmode := LTagName, pending := [], closing := False,
                            tname := [to_lower c], tattrs := []\<rparr>)
      else if c = CHR ''/'' then ([], st\<lparr>lmode := LEndTagOpen\<rparr>)
      else if c = CHR ''!'' then
        (flush_text st,
         if startsWith cs ''--'' then st\<lparr>lmode := LSkip 2 LComment, pending := []\<rparr>
         else st\<lparr>lmode := LBang, pending := []\<rparr>)
      else if c = CHR ''<'' then ([], st\<lparr>pending := CHR ''<'' # pending st\<rparr>)
      else ([], st\<lparr>lmode := LData, pending := c # CHR ''<'' # pending st\<rparr>))"
| "lex_step LEndTagOpen st c cs =
     (if is_letter c then
        (flush_text st, st\<lparr>lmode := LTagName, pending := [], closing := True,
                            tname := [to_lower c], tattrs := []\<rparr>)
      else if c = CHR ''>'' then ([], st\<lparr>lmode := LData\<rparr>)
      else (flush_text st, st\<lparr>lmode := LBang, pending := [c]\<rparr>))"
| "lex_step LTagName st c cs =
     (if is_space c then ([], st\<lparr>lmode := LBeforeAttr\<rparr>)
      else if c = CHR ''/'' then ([], st\<lparr>lmode := LSelfClose\<rparr>)
      else if c = CHR ''>'' then emit_tag st
      else ([], st\<lparr>tname := tname st @ [to_lower c]\<rparr>))"
| "lex_step LBeforeAttr st c cs = before_attr st c"
| "lex_step LAttrName st c cs =
     (if is_space c then ([], st\<lparr>lmode := LAfterAttrName\<rparr>)
      else if c = CHR ''/'' then ([], (push_attr st)\<lparr>lmode := LSelfClose\<rparr>)
      else if c = CHR ''>'' then emit_tag (push_attr st)
      else if c = CHR ''='' then ([], st\<lparr>lmode := LBeforeValue\<rparr>)
      else ([], st\<lparr>aname := aname st @ [to_lower c]\<rparr>))"
| "lex_step LAfterAttrName st c cs =
     (if is_space c then ([], st)
      else if c = CHR ''='' then ([], st\<lparr>lmode := LBeforeValue\<rparr>)
      else before_attr (push_attr st) c)"
| "lex_step LBeforeValue st c cs =
     (if is_space c then ([], st)
      else if c = CHR 0x22 then ([], st\<lparr>lmode := LValueDQ\<rparr>)
      else if c = CHR 0x27 then ([], st\<lparr>lmode := LValueSQ\<rparr>)
      else if c = CHR ''>'' then emit_tag (push_attr st)
      else ([], st\<lparr>lmode := LValueUnq, avalue := [c]\<rparr>))"
| "lex_step LValueDQ st c cs =
     (if c = CHR 0x22 then ([], (push_attr st)\<lparr>lmode := LAfterValue\<rparr>)
      else ([], st\<lparr>avalue := avalue st @ [c]\<rparr>))"
| "lex_step LValueSQ st c cs =
     (if c = CHR 0x27 then ([], (push_attr st)\<lparr>lmode := LAfterValue\<rparr>)
      else ([], st\<lparr>avalue := avalue st @ [c]\<rparr>))"
| "lex_step LValueUnq st c cs =
     (if is_space c then ([], (push_attr st)\<lparr>lmode := LBeforeAttr\<rparr>)
      else if c = CHR ''>'' then emit_tag (push_attr st)
      else ([], st\<lparr>avalue := avalue st @ [c]\<rparr>))"
| "lex_step LAfterValue st c cs = before_attr st c"
| "lex_step LSelfClose st c cs = before_attr st c"
| "lex_step LBang st c cs =
     (if c = CHR ''>'' then
        ([if startsWith (toLowerCase (rev (pending st))) ''doctype'' then DoctypeTok
          else CommentTok (rev (pending st))],
         st\<lparr>lmode := LData, pending := []\<rparr>)
      else ([], st\<lparr>pending := c # pending st\<rparr>))"
| "lex_step LComment st c cs =
     (if c = CHR ''-'' then
        (if startsWith cs ''->'' then
           ([CommentTok (rev (pending st))], st\<lparr>lmode := LSkip 2 LData, pending := []\<rparr>)
         else ([], st\<lparr>pending := c # pending st\<rparr>))
      else ([], st\<lparr>pending := c # pending st\<rparr>))"
| "lex_step (LSkip n m) st c cs =
     (if n \<le> 1 then ([], st\<lparr>lmode := m\<rparr>) else ([], st\<lparr>lmode := LSkip (n - 1) m\<rparr>))"
| "lex_step LRaw st c cs =
     (if c = CHR ''<'' then
        (if raw_end (rawname st) cs then (flush_text st, st\<lparr>lmode := LTagOpen, pending := []\<rparr>)
         else ([], st\<lparr>pending := c # pending st\<rparr>))
      else ([], st\<lparr>pending := c # pending st\<rparr>))"

fun lex_all :: "lexer \<Rightarrow> string \<Rightarrow> token list" where
  "lex_all st [] =
     (case lmode st of
        LData \<Rightarrow> flush_text st
      | LRaw \<Rightarrow> flush_text st
      | LTagOpen \<Rightarrow> [Chars (rev (CHR ''<'' # pending st))]
      | LComment \<Rightarrow> [CommentTok (rev (pending st))]
      | LBang \<Rightarrow> [CommentTok (rev (pending st))]
      | _ \<Rightarrow> [])"
| "lex_all st (c # cs) = (case lex_step (lmode st) st c cs of (out, st') \<Rightarrow> out @ lex_all st' cs)"

definition tokenize :: "string \<Rightarrow> token list" where
  "tokenize s = lex_all lexer0 s"

text \<open>
  Tree construction: a stack of open elements, each with its children so far in reverse.
  The bottom frame is the root that collects the result.
\<close>

type_synonym frame = "string \<times> (string \<times> string) list \<times> node list"

definition mk_element :: "frame \<Rightarrow> node" where
  "mk_element f =
     (case f of (nm, as, kids) \<Rightarrow>
        if nm = ''template'' then Element nm as [] (rev kids) else Element nm as (rev kids) [])"

fun add_node :: "node \<Rightarrow> frame list \<Rightarrow> frame list" where
  "add_node x [] = []"
| "add_node x ((nm, as, kids) # fs) = (nm, as, x # kids) # fs"

fun add_text :: "string \<Rightarrow> frame list \<Rightarrow> frame list" where
  "add_text t [] = []"
| "add_text t ((nm, as, TextNode u # kids) # fs) = (nm, as, TextNode (u @ t) # kids) # fs"
| "add_text t ((nm, as, kids) # fs) = (nm, as, TextNode t # kids) # fs"

function close_until :: "string \<Rightarrow> frame list \<Rightarrow> frame list" where
  "close_until tag [] = []"
| "close_until tag [f] = [f]"
| "close_until tag (f # g # fs) =
     (if fst f = tag then add_node (mk_element f) (g # fs)
      else close_until tag (add_node (mk_element f) (g # fs)))"
  by pat_completeness auto
termination
  by (relation "measure (\<lambda>(tag, st). length st)") (auto split: prod.splits)

function unwind :: "frame list \<Rightarrow> node list" where
  "unwind [] = []"
| "unwind [f] = rev (snd (snd f))"
| "unwind (f # g # fs) = unwind (add_node (mk_element f) (g # fs))"
  by pat_completeness auto
termination
  by (relation "measure length") (auto split: prod.splits)

definition ignored_in_body :: "string list" where
  "ignored_in_body = [''html'', ''head'', ''body'', ''frameset'']"

fun build :: "frame list \<Rightarrow> token list \<Rightarrow> frame list" where
  "build st [] = st"
| "build st (Chars t # ts) = build (add_text t st) ts"
| "build st (CommentTok c # ts) = build (add_node (Comment c) st) ts"
| "build st (DoctypeTok # ts) = build st ts"
| "build st (StartTag nm as # ts) =
     (if nm \<in> set ignored_in_body then build st ts
      else if nm \<in> set void_elements then build (add_node (Element nm as [] []) st) ts
      else build ((nm, as, []) # st) ts)"
| "build st (EndTag nm # ts) =
     (if nm \<in> set (map fst (butlast st)) then build (close_until nm st) ts else build st ts)"

definition parse_fragment :: "string \<Rightarrow> node list" where
  "parse_fragment s = unwind (build [([], [], [])] (tokenize s))"

text \<open>
  The document parser puts leading metadata into \<^verbatim>\<open>head\<close> and the rest into \<^verbatim>\<open>body\<close>.
\<close>

datatype phase = BeforeHead | InHead | AfterHead

record head_state =
  ph :: phase
  head_kids :: "node list"
  open_raw :: "(string \<times> (string \<times> string) list \<times> string) option"
  gap :: string

definition head_void :: "string list" where
  "head_void = [''base'', ''basefont'', ''bgsound'', ''link'', ''meta'']"

definition head_raw :: "string list" where
  "head_raw = [''title'', ''style'', ''script'', ''noframes'']"

definition entered :: "head_state \<Rightarrow> head_state" where
  "entered h = (if ph h = BeforeHead then h\<lparr>ph := InHead\<rparr> else h)"

definition head_text :: "string \<Rightarrow> head_state \<Rightarrow> head_state" where
  "head_text w h =
     (if w = [] \<or> ph h = BeforeHead then h
      else if ph h = AfterHead then h\<lparr>gap := gap h @ w\<rparr>
      else (case head_kids h of
              TextNode u # kids \<Rightarrow> h\<lparr>head_kids := TextNode (u @ w) # kids\<rparr>
            | kids \<Rightarrow> h\<lparr>head_kids := TextNode w # kids\<rparr>))"

fun head_phase :: "head_state \<Rightarrow> token list \<Rightarrow> head_state \<times> token list" where
  "head_phase h [] = (h, [])"
| "head_phase h (t # ts) =
     (case open_raw h of
        Some (nm, as, txt) \<Rightarrow>
          (case t of
             Chars c \<Rightarrow> head_phase (h\<lparr>open_raw := Some (nm, as, txt @ c)\<rparr>) ts
           | EndTag m \<Rightarrow>
               head_phase
                 (h\<lparr>open_raw := None,
                    head_kids := Element nm as (if txt = [] then [] else [TextNode txt]) []
                                 # head_kids h\<rparr>) ts
           | _ \<Rightarrow> head_phase h ts)
      | None \<Rightarrow>
          (case t of
             Chars c \<Rightarrow>
               (if dropWhile is_space c = [] then head_phase (head_text c h) ts
                else (head_text (takeWhile is_space c) h, Chars (dropWhile is_space c) # ts))
           | CommentTok c \<Rightarrow>
               (if ph h = InHead then head_phase (h\<lparr>head_kids := Comment c # head_kids h\<rparr>) ts
                else head_phase h ts)
           | DoctypeTok \<Rightarrow> head_phase h ts
           | StartTag nm as \<Rightarrow>
               (if nm = ''html'' then head_phase h ts
                else if nm = ''head'' then head_phase (entered h) ts
                else if nm \<in> set head_void then
                  head_phase ((entered h)\<lparr>head_kids := Element nm as [] [] # head_kids h\<rparr>) ts
                else if nm \<in> set head_raw then
                  head_phase ((entered h)\<lparr>open_raw := Some (nm, as, [])\<rparr>) ts
                else (h, t # ts))
           | EndTag nm \<Rightarrow>
               (if nm = ''head'' then head_phase (h\<lparr>ph := AfterHead\<rparr>) ts
                else if nm \<in> set [''body'', ''html'', ''br''] then (h, ts)
                else head_phase h ts)))"

definition parse_document :: "string \<Rightarrow> node" where
  "parse_document s =
     (case head_phase \<lparr>ph = BeforeHead, head_kids = [], open_raw = None, gap = []\<rparr> (tokenize s) of
        (h, rest) \<Rightarrow>
          (let (battrs, rest') = (case rest of StartTag nm as # ts \<Rightarrow>
                                     if nm = ''body'' then (as, ts) else ([], rest)
                                   | _ \<Rightarrow> ([], rest))
           in Element ''html'' []
                ([Element ''head'' [] (rev (head_kids h)) []]
                 @ (if gap h = [] then [] else [TextNode (gap h)])
                 @ [Element ''body'' battrs (unwind (build [([], [], [])] rest')) []]) []))"

text \<open>Serialization of a fragment, as \<^verbatim>\<open>innerHTML\<close> reads it.\<close>

definition escape_text :: "string \<Rightarrow> string" where
  "escape_text s =
     concat (map (\<lambda>c. if c = CHR ''&'' then ''&amp;'' else if c = CHR ''<'' then ''&lt;''
                       else if c = CHR ''>'' then ''&gt;'' else [c]) s)"

definition escape_attr :: "string \<Rightarrow> string" where
  "escape_attr s =
     concat (map (\<lambda>c. if c = CHR ''&'' then ''&amp;'' else if c = CHR 0x22 then ''&quot;''
                       else [c]) s)"

definition raw_parents :: "string list" where
  "raw_parents = [''style'', ''script'', ''xmp'', ''iframe'', ''noembed'', ''noframes'', ''plaintext'']"

fun serialize_node :: "bool \<Rightarrow> node \<Rightarrow> string" where
  "serialize_node rawp (Element nm as cs tc) =
     ''<'' @ nm @ concat (map (\<lambda>(k, v). '' '' @ k @ ''=\"'' @ escape_attr v @ ''\"'') as) @ ''>''
     @ (if nm \<in> set void_elements then []
        else (if nm = ''template'' then concat (map (serialize_node False) tc)
              else concat (map (serialize_node (nm \<in> set raw_parents)) cs))
             @ ''</'' @ nm @ ''>'')"
| "serialize_node rawp (TextNode t) = (if rawp then t else escape_text t)"
| "serialize_node rawp (Comment t) = ''<!--'' @ t @ ''-->''"

definition serialize :: "node list \<Rightarrow> string" where
  "serialize ns = concat (map (serialize_node False) ns)"

text \<open>
  The inline style: the declarations of the \<^verbatim>\<open>style\<close> attribute, the last one of a name
  winning; \<^verbatim>\<open>el.style.fontSize\<close> reads \<^verbatim>\<open>font-size\<close>.  Values are returned as written.
\<close>

fun split_on :: "char \<Rightarrow> string \<Rightarrow> string \<Rightarrow> string list" where
  "split_on sep cur [] = [cur]"
| "split_on sep cur (c # cs) = (if c = sep then cur # split_on sep [] cs else split_on sep (cur @ [c]) cs)"

definition trim :: "string \<Rightarrow> string" where
  "trim s = rev (dropWhile is_space (rev (dropWhile is_space s)))"

definition declarations :: "string \<Rightarrow> (string \<times> string) list" where
  "declarations css =
     concat (map (\<lambda>d. if CHR '':'' \<in> set d
                       then [(toLowerCase (trim (takeWhile (\<lambda>c. c \<noteq> CHR '':'') d)),
                              trim (drop 1 (dropWhile (\<lambda>c. c \<noteq> CHR '':'') d)))]
                       else [])
               (split_on (CHR '';'') [] css))"

definition ref_inlineStyle :: "node \<Rightarrow> string \<Rightarrow> string" where
  "ref_inlineStyle el p =
     (case getAttribute el ''style'' of
        None \<Rightarrow> []
      | Some css \<Rightarrow> (case map_of (rev (declarations css)) (kebab p) of None \<Rightarrow> [] | Some v \<Rightarrow> v))"

text \<open>
  A document made by \<^verbatim>\<open>DOMParser\<close> has no browsing context: every computed value reads
  as the empty string.
\<close>

definition reference_browser :: browser where
  "reference_browser =
     \<lparr>setInnerHTML = parse_fragment, getInnerHTML = serialize, parseFromString = parse_document,
      inlineStyle = ref_inlineStyle, computedStyle = (\<lambda>el p. [])\<rparr>"

definition tall_img_html :: string where
  "tall_img_html =
     ''<div class=\"poster\"><img src=\"a.png\" style=\"width: 30px; height: 200px\"></div>''"

definition tall_img :: node where
  "tall_img = Element ''img'' [(''src'', ''a.png''), (''style'', ''width: 30px; height: 200px'')] [] []"

section \<open>The position invariant\<close>

definition absolute_doc :: "element list \<Rightarrow> bool" where
  "absolute_doc d = list_all (\<lambda>e. map_of (style e) ''position'' = Some ''absolute'') d"

definition absolute_state :: "editor \<Rightarrow> bool" where
  "absolute_state s =
     (absolute_doc (elements s) \<and> list_all (\<lambda>h. absolute_doc (entry_elements h)) (history s))"

text \<open>
  A source element leaves the position to the default: its inline position is
  \<^verbatim>\<open>absolute\<close>, or it is unset and the computed one is unset or \<^verbatim>\<open>absolute\<close>.
\<close>

definition position_plain :: "browser \<Rightarrow> node \<Rightarrow> bool" where
  "position_plain b el =
     (inlineStyle b el ''position'' = ''absolute''
      \<or> (inlineStyle b el ''position'' = []
          \<and> (computedStyle b el ''position'' = [] \<or> computedStyle b el ''position'' = ''absolute'')))"

definition import_plain :: "browser \<Rightarrow> string \<Rightarrow> bool" where
  "import_plain b html =
     (case container b html of None \<Rightarrow> True | Some p \<Rightarrow> list_all (position_plain b) (children p))"

fun command_plain :: "browser \<Rightarrow> command \<Rightarrow> bool" where
  "command_plain b (Import html clock) = import_plain b html"
| "command_plain b (Paste html clock) = (case html of None \<Rightarrow> True | Some h \<Rightarrow> import_plain b h)"
| "command_plain b (UpdateProperty p v) = (p = ''position'' \<longrightarrow> v = ''absolute'')"
| "command_plain b c = True"

definition relative_html :: string where
  "relative_html = ''<div class=\"poster\"><p style=\"position: relative\">Hi</p></div>''"

definition sample_session :: "command list" where
  "sample_session =
     [Import tall_img_html (\<lambda>i. 0), AddElement TextType 7, UpdateProperty ''left'' ''10px'',
      MouseDown ''text-7'' 60 60, MouseMove 100 100 0 0, MouseUp, Undo, Redo,
      DoubleClick ''text-7'', TextBlur ''Hello'', DeleteElement True]"

definition template_html :: string where
  "template_html =
     ''<template><script>alert(1)</script><img src=\"x\" onerror=\"alert(2)\"></template>''
     @ ''<p onclick=\"alert(3)\">ok</p><script>alert(4)</script>''"

definition template_node :: node where
  "template_node =
     Element ''template'' [] []
       [Element ''script'' [] [TextNode ''alert(1)''] [],
        Element ''img'' [(''src'', ''x''), (''onerror'', ''alert(2)'')] [] []]"

section \<open>The store: objects, arrays and references\<close>

text \<open>
  The claims about snapshots depend on which objects are shared.  Here the elements, their
  style objects, the arrays and the history entries are cells of a store, and what React
  keeps in its state are references.  A fresh cell gets the next free address.  The
  handlers are the ones above, with every object literal, spread, \<^verbatim>\<open>map\<close>, \<^verbatim>\<open>filter\<close>,
  \<^verbatim>\<open>slice\<close> and \<^verbatim>\<open>JSON.parse\<close> allocating and \<^verbatim>\<open>push\<close> writing in place.  \<^const>\<open>None\<close> is a handler
  that throws (or a reference to a cell of another kind, which JavaScript cannot build).
\<close>

type_synonym addr = nat

datatype obj =
    StyleObj "(string \<times> string) list"
  | ElementObj string elem_type "string option" "string option" "string option" string addr
  | ArrayObj "addr list"
  | EntryObj addr "string option"

definition alloc :: "obj list \<Rightarrow> obj \<Rightarrow> obj list \<times> addr" where
  "alloc h x = (h @ [x], length h)"

definition lookup :: "obj list \<Rightarrow> addr \<Rightarrow> obj option" where
  "lookup h a = (if a < length h then Some (h ! a) else None)"

definition read_style :: "obj list \<Rightarrow> addr \<Rightarrow> (string \<times> string) list option" where
  "read_style h a = (case lookup h a of Some (StyleObj st) \<Rightarrow> Some st | _ \<Rightarrow> None)"

definition read_array :: "obj list \<Rightarrow> addr \<Rightarrow> addr list option" where
  "read_array h a = (case lookup h a of Some (ArrayObj refs) \<Rightarrow> Some refs | _ \<Rightarrow> None)"

definition read_element :: "obj list \<Rightarrow> addr \<Rightarrow> element option" where
  "read_element h a =
     (case lookup h a of
        Some (ElementObj i ty c s al tn sa) \<Rightarrow>
          map_option (\<lambda>st. \<lparr>el_id = i, el_type = ty, content = c, src = s, alt = al,
                            tagName = tn, style = st\<rparr>) (read_style h sa)
      | _ \<Rightarrow> None)"

fun read_all :: "(addr \<Rightarrow> 'a option) \<Rightarrow> addr list \<Rightarrow> 'a list option" where
  "read_all f [] = Some []"
| "read_all f (a # as) = do { x \<leftarrow> f a; xs \<leftarrow> read_all f as; Some (x # xs) }"

text \<open>The value of the document, and of the snapshot, that a reference denotes.\<close>

definition read_doc :: "obj list \<Rightarrow> addr \<Rightarrow> element list option" where
  "read_doc h a = do { refs \<leftarrow> read_array h a; read_all (read_element h) refs }"

definition read_entry :: "obj list \<Rightarrow> addr \<Rightarrow> entry option" where
  "read_entry h a =
     (case lookup h a of
        Some (EntryObj d sel) \<Rightarrow>
          map_option (\<lambda>els. \<lparr>entry_elements = els, entry_selectedId = sel\<rparr>) (read_doc h d)
      | _ \<Rightarrow> None)"

text \<open>The cells a snapshot consists of: the entry, its array, the elements and their styles.\<close>

definition element_cells :: "obj list \<Rightarrow> addr \<Rightarrow> addr list" where
  "element_cells h a =
     (case lookup h a of Some (ElementObj i ty c s al tn sa) \<Rightarrow> [a, sa] | _ \<Rightarrow> [a])"

definition doc_cells :: "obj list \<Rightarrow> addr \<Rightarrow> addr list" where
  "doc_cells h a =
     (case read_array h a of None \<Rightarrow> [a] | Some refs \<Rightarrow> a # concat (map (element_cells h) refs))"

definition entry_cells :: "obj list \<Rightarrow> addr \<Rightarrow> addr list" where
  "entry_cells h a =
     (case lookup h a of Some (EntryObj d sel) \<Rightarrow> a # doc_cells h d | _ \<Rightarrow> [a])"

text \<open>Building the objects for a value: an object literal per element and per style.\<close>

definition store_element :: "obj list \<Rightarrow> element \<Rightarrow> obj list \<times> addr" where
  "store_element h e =
     (case alloc h (StyleObj (style e)) of
        (h1, sa) \<Rightarrow>
          alloc h1 (ElementObj (el_id e) (el_type e) (content e) (src e) (alt e) (tagName e) sa))"

fun store_elements :: "obj list \<Rightarrow> element list \<Rightarrow> obj list \<times> addr list" where
  "store_elements h [] = (h, [])"
| "store_elements h (e # es) =
     (case store_element h e of
        (h1, a) \<Rightarrow> (case store_elements h1 es of (h2, as) \<Rightarrow> (h2, a # as)))"

definition store_doc :: "obj list \<Rightarrow> element list \<Rightarrow> obj list \<times> addr" where
  "store_doc h d = (case store_elements h d of (h1, refs) \<Rightarrow> alloc h1 (ArrayObj refs))"

text \<open>
  \<^verbatim>\<open>JSON.parse(JSON.stringify(x))\<close>: the value is printed, then built anew from the text.
\<close>

definition json_copy :: "obj list \<Rightarrow> addr \<Rightarrow> (obj list \<times> addr) option" where
  "json_copy h a = map_option (store_doc h) (read_doc h a)"

record live =
  store :: "obj list"
  elements_at :: addr
  selected :: "string option"
  history_at :: addr
  index_at :: int
  editing :: bool
  dragging :: bool
  offset :: "number \<times> number"

definition init_live :: live where
  "init_live = \<lparr>store = [ArrayObj [], ArrayObj []], elements_at = 0, selected = None,
     history_at = 1, index_at = - 1, editing = False, dragging = False, offset = (Num 0, Num 0)\<rparr>"

text \<open>\<^verbatim>\<open>saveHistory\<close>: \<^verbatim>\<open>slice\<close> makes a new array, \<^verbatim>\<open>push\<close> writes into it.\<close>

definition saveHistory_live :: "addr \<Rightarrow> string option \<Rightarrow> live \<Rightarrow> live option" where
  "saveHistory_live newElements newSelectedId s =
     do {
       hist \<leftarrow> read_array (store s) (history_at s);
       (h1, newHistory) \<leftarrow> Some (alloc (store s) (ArrayObj (js_slice0 hist (index_at s + 1))));
       (h2, copy) \<leftarrow> json_copy h1 newElements;
       (h3, ent) \<leftarrow> Some (alloc h2 (EntryObj copy newSelectedId));
       cur \<leftarrow> read_array h3 newHistory;
       Some (s\<lparr>store := h3[newHistory := ArrayObj (cur @ [ent])], history_at := newHistory,
               index_at := int (length (cur @ [ent])) - 1\<rparr>)
     }"

text \<open>\<^verbatim>\<open>elements.map(f)\<close> and \<^verbatim>\<open>elements.filter(p)\<close> over references.\<close>

fun map_refs :: "(obj list \<Rightarrow> addr \<Rightarrow> (obj list \<times> addr) option) \<Rightarrow> obj list \<Rightarrow> addr list
    \<Rightarrow> (obj list \<times> addr list) option" where
  "map_refs f h [] = Some (h, [])"
| "map_refs f h (a # as) =
     do { (h1, a') \<leftarrow> f h a; (h2, as') \<leftarrow> map_refs f h1 as; Some (h2, a' # as') }"

definition id_at :: "obj list \<Rightarrow> addr \<Rightarrow> string option" where
  "id_at h a = (case lookup h a of Some (ElementObj i ty c s al tn sa) \<Rightarrow> Some i | _ \<Rightarrow> None)"

fun filter_refs :: "(string \<Rightarrow> bool) \<Rightarrow> obj list \<Rightarrow> addr list \<Rightarrow> addr list option" where
  "filter_refs p h [] = Some []"
| "filter_refs p h (a # as) =
     do { i \<leftarrow> id_at h a; as' \<leftarrow> filter_refs p h as; Some (if p i then a # as' else as') }"

text \<open>\<^verbatim>\<open>{ ...el, [prop]: val }\<close> and \<^verbatim>\<open>{ ...el, style: { ...el.style, [prop]: val } }\<close>.\<close>

definition set_prop_at :: "string \<Rightarrow> string \<Rightarrow> obj list \<Rightarrow> addr \<Rightarrow> (obj list \<times> addr) option" where
  "set_prop_at prop val h a =
     (case lookup h a of
        Some (ElementObj i ty c s al tn sa) \<Rightarrow>
          if prop = ''content'' then Some (alloc h (ElementObj i ty (Some val) s al tn sa))
          else if prop = ''src'' then Some (alloc h (ElementObj i ty c (Some val) al tn sa))
          else if prop = ''alt'' then Some (alloc h (ElementObj i ty c s (Some val) tn sa))
          else do {
            st \<leftarrow> read_style h sa;
            (h1, sa') \<leftarrow> Some (alloc h (StyleObj (AList.update prop val st)));
            Some (alloc h1 (ElementObj i ty c s al tn sa'))
          }
      | _ \<Rightarrow> None)"

definition move_at :: "string \<Rightarrow> string \<Rightarrow> obj list \<Rightarrow> addr \<Rightarrow> (obj list \<times> addr) option" where
  "move_at x_px y_px h a =
     (case lookup h a of
        Some (ElementObj i ty c s al tn sa) \<Rightarrow>
          do {
            st \<leftarrow> read_style h sa;
            (h1, sa') \<leftarrow> Some (alloc h (StyleObj (AList.update ''top'' y_px (AList.update ''left'' x_px st))));
            Some (alloc h1 (ElementObj i ty c s al tn sa'))
          }
      | _ \<Rightarrow> None)"

definition on_selected :: "string option \<Rightarrow> (obj list \<Rightarrow> addr \<Rightarrow> (obj list \<times> addr) option)
    \<Rightarrow> obj list \<Rightarrow> addr \<Rightarrow> (obj list \<times> addr) option" where
  "on_selected sel f h a =
     do { i \<leftarrow> id_at h a; if Some i = sel then f h a else Some (h, a) }"

definition map_elements_live :: "(obj list \<Rightarrow> addr \<Rightarrow> (obj list \<times> addr) option) \<Rightarrow> live
    \<Rightarrow> live option" where
  "map_elements_live f s =
     do {
       refs \<leftarrow> read_array (store s) (elements_at s);
       (h1, refs') \<leftarrow> map_refs (on_selected (selected s) f) (store s) refs;
       (h2, newElements) \<leftarrow> Some (alloc h1 (ArrayObj refs'));
       Some (s\<lparr>store := h2, elements_at := newElements\<rparr>)
     }"

definition updateProperty_live :: "string \<Rightarrow> string \<Rightarrow> live \<Rightarrow> live option" where
  "updateProperty_live prop val s =
     (if \<not> truthy (selected s) then Some s else map_elements_live (set_prop_at prop val) s)"

definition handleMove_live :: "int \<Rightarrow> int \<Rightarrow> int \<Rightarrow> int \<Rightarrow> live \<Rightarrow> live option" where
  "handleMove_live clientX clientY rectLeft rectTop s =
     (if \<not> dragging s \<or> \<not> truthy (selected s) then Some s
      else
        (let x = minus_number (minus_number (to_number clientX) (to_number rectLeft))
                   (fst (offset s));
             y = minus_number (minus_number (to_number clientY) (to_number rectTop))
                   (snd (offset s))
         in map_elements_live (move_at (clamped_px x) (clamped_px y)) s))"

definition addElement_live :: "elem_type \<Rightarrow> nat \<Rightarrow> live \<Rightarrow> live option" where
  "addElement_live ty now s =
     do {
       (h1, newEl) \<leftarrow> Some (store_element (store s) (new_element ty now));
       refs \<leftarrow> read_array h1 (elements_at s);
       (h2, newElements) \<leftarrow> Some (alloc h1 (ArrayObj (refs @ [newEl])));
       saveHistory_live newElements (Some (el_id (new_element ty now)))
         (s\<lparr>store := h2, elements_at := newElements, selected := Some (el_id (new_element ty now))\<rparr>)
     }"

definition deleteElement_live :: "bool \<Rightarrow> live \<Rightarrow> live option" where
  "deleteElement_live confirmed s =
     (if \<not> truthy (selected s) then Some s
      else if confirmed then
        do {
          refs \<leftarrow> read_array (store s) (elements_at s);
          kept \<leftarrow> filter_refs (\<lambda>i. Some i \<noteq> selected s) (store s) refs;
          (h1, newElements) \<leftarrow> Some (alloc (store s) (ArrayObj kept));
          saveHistory_live newElements None
            (s\<lparr>store := h1, elements_at := newElements, selected := None\<rparr>)
        }
      else Some s)"

text \<open>\<^verbatim>\<open>undo\<close> and \<^verbatim>\<open>redo\<close> make the stored array itself the live document.\<close>

definition restore_live :: "int \<Rightarrow> live \<Rightarrow> live option" where
  "restore_live k s =
     do {
       hist \<leftarrow> read_array (store s) (history_at s);
       ent \<leftarrow> js_index hist k;
       (case lookup (store s) ent of
          Some (EntryObj d sel) \<Rightarrow> Some (s\<lparr>elements_at := d, selected := sel, index_at := k\<rparr>)
        | _ \<Rightarrow> None)
     }"

definition undo_live :: "live \<Rightarrow> live option" where
  "undo_live s = (if index_at s > 0 then restore_live (index_at s - 1) s else Some s)"

definition redo_live :: "live \<Rightarrow> live option" where
  "redo_live s =
     do {
       hist \<leftarrow> read_array (store s) (history_at s);
       if index_at s < int (length hist) - 1 then restore_live (index_at s + 1) s else Some s
     }"

definition handleImport_live :: "browser \<Rightarrow> (nat \<Rightarrow> nat) \<Rightarrow> string \<Rightarrow> live \<Rightarrow> live option" where
  "handleImport_live b clock html s =
     (case parse b clock html of
        Inl err \<Rightarrow> None
      | Inr parsed \<Rightarrow>
          (case store_doc (store s) parsed of
             (h1, arr) \<Rightarrow> saveHistory_live arr None (s\<lparr>store := h1, elements_at := arr, selected := None\<rparr>)))"

definition handleMouseDown_live :: "string \<Rightarrow> int \<Rightarrow> int \<Rightarrow> live \<Rightarrow> live option" where
  "handleMouseDown_live i clientX clientY s =
     (if editing s then Some s
      else
        do {
          d \<leftarrow> read_doc (store s) (elements_at s);
          (case find (\<lambda>e. el_id e = i) d of
             None \<Rightarrow> Some (s\<lparr>selected := Some i, dragging := True\<rparr>)
           | Some el \<Rightarrow>
               Some (s\<lparr>selected := Some i, dragging := True,
                       offset :=
                         (minus_number (to_number clientX) (parseInt_or_0 (map_of (style el) ''left'')),
                          minus_number (to_number clientY) (parseInt_or_0 (map_of (style el) ''top'')))\<rparr>))
        })"

definition handleUp_live :: "live \<Rightarrow> live option" where
  "handleUp_live s =
     (if dragging s then saveHistory_live (elements_at s) (selected s) (s\<lparr>dragging := False\<rparr>)
      else Some s)"

definition handleDoubleClick_live :: "string \<Rightarrow> live \<Rightarrow> live option" where
  "handleDoubleClick_live i s =
     do {
       d \<leftarrow> read_doc (store s) (elements_at s);
       (case find (\<lambda>e. el_id e = i) d of
          None \<Rightarrow> Some s
        | Some el \<Rightarrow>
            if el_type el = TextType then Some (s\<lparr>selected := Some i, editing := True\<rparr>)
            else Some s)
     }"

definition handleTextBlur_live :: "string \<Rightarrow> live \<Rightarrow> live option" where
  "handleTextBlur_live innerText s =
     (if editing s \<and> truthy (selected s) then
        do {
          s1 \<leftarrow> updateProperty_live ''content'' innerText s;
          saveHistory_live (elements_at s) (selected s) (s1\<lparr>editing := False\<rparr>)
        }
      else Some s)"

fun handler_live :: "browser \<Rightarrow> command \<Rightarrow> live \<Rightarrow> live option" where
  "handler_live b (Import html clock) s = handleImport_live b clock html s"
| "handler_live b (Paste html clock) s =
     (case html of None \<Rightarrow> Some s
      | Some h \<Rightarrow> if h = [] then Some s else handleImport_live b clock h s)"
| "handler_live b (AddElement ty now) s = addElement_live ty now s"
| "handler_live b (DeleteElement confirmed) s = deleteElement_live confirmed s"
| "handler_live b (UpdateProperty p v) s = updateProperty_live p v s"
| "handler_live b (ImageUpload dataUrl) s =
     (if \<not> truthy (selected s) then Some s else updateProperty_live ''src'' dataUrl s)"
| "handler_live b Undo s = undo_live s"
| "handler_live b Redo s = redo_live s"
| "handler_live b (MouseDown i x y) s = handleMouseDown_live i x y s"
| "handler_live b (MouseMove x y l t) s = handleMove_live x y l t s"
| "handler_live b MouseUp s = handleUp_live s"
| "handler_live b (DoubleClick i) s = handleDoubleClick_live i s"
| "handler_live b (TextBlur t) s = handleTextBlur_live t s"
| "handler_live b CanvasClick s = Some (s\<lparr>selected := None\<rparr>)"

definition step_live :: "browser \<Rightarrow> live \<Rightarrow> command \<Rightarrow> live" where
  "step_live b s c = (case handler_live b c s of None \<Rightarrow> s | Some s' \<Rightarrow> s')"

definition run_live :: "browser \<Rightarrow> live \<Rightarrow> command list \<Rightarrow> live" where
  "run_live b s cmds = foldl (step_live b) s cmds"

definition history_refs :: "live \<Rightarrow> addr list" where
  "history_refs s = (case read_array (store s) (history_at s) of None \<Rightarrow> [] | Some refs \<Rightarrow> refs)"

definition sample_live :: live where
  "sample_live = run_live reference_browser init_live [AddElement TextType 7]"

definition sample_edits :: "command list" where
  "sample_edits =
     [UpdateProperty ''color'' ''red'', MouseDown ''text-7'' 60 60, MouseMove 100 100 0 0,
      MouseUp, Undo, MouseDown ''text-7'' 60 60, UpdateProperty ''content'' ''Bye'']"


section \<open>Round trip\<close>









section \<open>Properties of the history\<close>

lemma js_slice0_take: "0 \<le> e \<Longrightarrow> js_slice0 xs e = take (nat e) xs"
  by (simp add: js_slice0_def)

lemma saveHistory_history:
  "- 1 \<le> historyIndex s \<Longrightarrow>
   history (saveHistory d sel s) =
     take (nat (historyIndex s + 1)) (history s) @ [\<lparr>entry_elements = d, entry_selectedId = sel\<rparr>]"
  by (simp add: saveHistory_def Let_def js_slice0_take)

lemma saveHistory_index:
  "historyIndex (saveHistory d sel s) = int (length (history (saveHistory d sel s))) - 1"
  by (simp add: saveHistory_def Let_def)

lemma saveHistory_index_val:
  "history_ok s \<Longrightarrow> historyIndex (saveHistory d sel s) = historyIndex s + 1"
  by (auto simp: saveHistory_def Let_def js_slice0_take history_ok_def min_def)

lemma saveHistory_ok: "history_ok (saveHistory d sel s)"
  by (simp add: saveHistory_def Let_def history_ok_def)

lemma saveHistory_frame:
  "elements (saveHistory d sel s) = elements s"
  "selectedId (saveHistory d sel s) = selectedId s"
  "isEditingText (saveHistory d sel s) = isEditingText s"
  "isDragging (saveHistory d sel s) = isDragging s"
  "dragOffset (saveHistory d sel s) = dragOffset s"
  by (simp_all add: saveHistory_def Let_def)

lemma undo_step:
  "history_ok s \<Longrightarrow> 0 < historyIndex s \<Longrightarrow>
   undo s = Inr (s\<lparr>elements := entry_elements (history s ! nat (historyIndex s - 1)),
                   selectedId := entry_selectedId (history s ! nat (historyIndex s - 1)),
                   historyIndex := historyIndex s - 1\<rparr>)"
  by (simp add: undo_def js_index_def history_ok_def)

lemma undo_noop: "historyIndex s \<le> 0 \<Longrightarrow> undo s = Inr s"
  by (simp add: undo_def)

lemma redo_step:
  "history_ok s \<Longrightarrow> historyIndex s < int (length (history s)) - 1 \<Longrightarrow>
   redo s = Inr (s\<lparr>elements := entry_elements (history s ! nat (historyIndex s + 1)),
                   selectedId := entry_selectedId (history s ! nat (historyIndex s + 1)),
                   historyIndex := historyIndex s + 1\<rparr>)"
  by (simp add: redo_def js_index_def history_ok_def)

lemma redo_noop: "int (length (history s)) - 1 \<le> historyIndex s \<Longrightarrow> redo s = Inr s"
  by (simp add: redo_def)

text \<open>
  Claim C2.  On a history whose index lies within \<open>[-1, length - 1]\<close>: a push keeps the
  entries up to the current index, appends the new snapshot and points the index at it;
  undo moves the index down by one and installs the entry found there when the index is
  positive, and changes nothing otherwise; redo moves the index up by one and installs the
  entry found there when the index is below \<open>length - 1\<close>, and changes nothing otherwise.
  After the pushes of \<open>A\<close>, \<open>B\<close>, \<open>C\<close> on the initial state, undo installs \<open>B\<close>, a second undo
  installs \<open>A\<close>, a third changes nothing; redo then installs \<open>B\<close> and \<open>C\<close>; and a push of \<open>D\<close>
  after undoing to \<open>A\<close> leaves the history \<open>[A, D]\<close>, on which redo changes nothing.
\<close>

theorem history_contract:
  assumes ok: "history_ok s"
  shows
    "history (saveHistory d sel s)
       = take (nat (historyIndex s + 1)) (history s) @ [\<lparr>entry_elements = d, entry_selectedId = sel\<rparr>]
     \<and> historyIndex (saveHistory d sel s) = int (length (history (saveHistory d sel s))) - 1
     \<and> js_index (history (saveHistory d sel s)) (historyIndex (saveHistory d sel s))
         = Some \<lparr>entry_elements = d, entry_selectedId = sel\<rparr>
     \<and> (0 < historyIndex s \<longrightarrow>
          undo s = Inr (s\<lparr>elements := entry_elements (history s ! nat (historyIndex s - 1)),
                          selectedId := entry_selectedId (history s ! nat (historyIndex s - 1)),
                          historyIndex := historyIndex s - 1\<rparr>))
     \<and> (historyIndex s \<le> 0 \<longrightarrow> undo s = Inr s)
     \<and> (historyIndex s < int (length (history s)) - 1 \<longrightarrow>
          redo s = Inr (s\<lparr>elements := entry_elements (history s ! nat (historyIndex s + 1)),
                          selectedId := entry_selectedId (history s ! nat (historyIndex s + 1)),
                          historyIndex := historyIndex s + 1\<rparr>))
     \<and> (int (length (history s)) - 1 \<le> historyIndex s \<longrightarrow> redo s = Inr s)
     \<and> (let s3 = saveHistory C c (saveHistory B b (saveHistory A a init));
             atB = s3\<lparr>elements := B, selectedId := b, historyIndex := 1\<rparr>;
             atA = s3\<lparr>elements := A, selectedId := a, historyIndex := 0\<rparr>;
             atC = s3\<lparr>elements := C, selectedId := c, historyIndex := 2\<rparr>;
             s4 = saveHistory D d' atA
         in undo s3 = Inr atB \<and> undo atB = Inr atA \<and> undo atA = Inr atA
            \<and> redo atA = Inr atB \<and> redo atB = Inr atC
            \<and> history s4 = [\<lparr>entry_elements = A, entry_selectedId = a\<rparr>,
                             \<lparr>entry_elements = D, entry_selectedId = d'\<rparr>]
            \<and> historyIndex s4 = 1
            \<and> redo s4 = Inr s4)"
proof -
  have push: "history (saveHistory d sel s)
       = take (nat (historyIndex s + 1)) (history s) @ [\<lparr>entry_elements = d, entry_selectedId = sel\<rparr>]"
    using ok by (simp add: saveHistory_history history_ok_def)
  have idx: "historyIndex (saveHistory d sel s) = int (length (history (saveHistory d sel s))) - 1"
    by (rule saveHistory_index)
  have points: "js_index (history (saveHistory d sel s)) (historyIndex (saveHistory d sel s))
         = Some \<lparr>entry_elements = d, entry_selectedId = sel\<rparr>"
    unfolding idx unfolding push by (simp add: js_index_def nth_append)
  have scenario: "(let s3 = saveHistory C c (saveHistory B b (saveHistory A a init));
             atB = s3\<lparr>elements := B, selectedId := b, historyIndex := 1\<rparr>;
             atA = s3\<lparr>elements := A, selectedId := a, historyIndex := 0\<rparr>;
             atC = s3\<lparr>elements := C, selectedId := c, historyIndex := 2\<rparr>;
             s4 = saveHistory D d' atA
         in undo s3 = Inr atB \<and> undo atB = Inr atA \<and> undo atA = Inr atA
            \<and> redo atA = Inr atB \<and> redo atB = Inr atC
            \<and> history s4 = [\<lparr>entry_elements = A, entry_selectedId = a\<rparr>,
                             \<lparr>entry_elements = D, entry_selectedId = d'\<rparr>]
            \<and> historyIndex s4 = 1
            \<and> redo s4 = Inr s4)"
    by (simp add: saveHistory_def js_slice0_def undo_def redo_def js_index_def init_def Let_def)
  show ?thesis
    using push idx points scenario undo_step [OF ok] undo_noop [of s] redo_step [OF ok]
      redo_noop [of s]
    by blast
qed

definition sample_entries :: "entry list" where
  "sample_entries =
     [\<lparr>entry_elements = [], entry_selectedId = None\<rparr>,
      \<lparr>entry_elements = [new_element TextType 7], entry_selectedId = Some ''text-7''\<rparr>,
      \<lparr>entry_elements = [new_element TextType 7, new_element ImageType 8],
         entry_selectedId = Some ''img-8''\<rparr>]"

definition sample_at :: "int \<Rightarrow> editor" where
  "sample_at i = init\<lparr>history := sample_entries, historyIndex := i\<rparr>"

theorem history_contract_witness:
  "history_ok (sample_at 1)
   \<and> history (saveHistory [] None (sample_at 1))
       = [\<lparr>entry_elements = [], entry_selectedId = None\<rparr>,
          \<lparr>entry_elements = [new_element TextType 7], entry_selectedId = Some ''text-7''\<rparr>,
          \<lparr>entry_elements = [], entry_selectedId = None\<rparr>]
   \<and> historyIndex (saveHistory [] None (sample_at 1)) = 2
   \<and> undo (sample_at 1) = Inr ((sample_at 0)\<lparr>elements := [], selectedId := None\<rparr>)
   \<and> redo (sample_at 1)
       = Inr ((sample_at 2)\<lparr>elements := [new_element TextType 7, new_element ImageType 8],
                selectedId := Some ''img-8''\<rparr>)
   \<and> history_ok (sample_at 0) \<and> undo (sample_at 0) = Inr (sample_at 0)
   \<and> history_ok (sample_at 2) \<and> redo (sample_at 2) = Inr (sample_at 2)"
proof -
  have ok: "history_ok (sample_at 0)" "history_ok (sample_at 1)" "history_ok (sample_at 2)"
    by (simp_all add: history_ok_def sample_at_def sample_entries_def)
  show ?thesis
    using ok history_contract [OF ok(2), of "[]" None]
      history_contract [OF ok(1), of "[]" None] history_contract [OF ok(3), of "[]" None]
    by (simp add: sample_at_def sample_entries_def init_def)
qed

section \<open>Properties of the commands\<close>

lemma truthy_Some: "truthy (Some i) = (i \<noteq> [])"
  by (simp add: truthy_def)

lemma filter_absent_id:
  "i \<notin> set (map el_id xs) \<Longrightarrow> filter (\<lambda>el. Some (el_id el) \<noteq> Some i) xs = xs"
  by (auto simp: filter_id_conv)

lemma map_absent_id:
  "i \<notin> set (map el_id xs) \<Longrightarrow> map (\<lambda>el. if Some (el_id el) = Some i then f el else el) xs = xs"
  by (induction xs) auto

lemma show_nat_digit: "n < 10 \<Longrightarrow> show_nat n = [digit_char n]"
  by (simp add: show_nat.simps)







text \<open>
  Claim C9, as stated, fails: with a selection that matches no element, a confirmed
  \<^verbatim>\<open>deleteElement\<close> still clears the selection and pushes a history entry.
\<close>


theorem deleteElement_dangling_counterexample:
  "''ghost'' \<notin> set (map el_id (elements ghost_state))
   \<and> selectedId (deleteElement True ghost_state) \<noteq> selectedId ghost_state
   \<and> history (deleteElement True ghost_state) \<noteq> history ghost_state
   \<and> historyIndex (deleteElement True ghost_state) \<noteq> historyIndex ghost_state"
  by (simp add: ghost_state_def init_def deleteElement_def truthy_def saveHistory_def Let_def
      js_slice0_def)

text \<open>
  Claim C9, amended.  With no selection, \<^verbatim>\<open>deleteElement\<close> and \<^verbatim>\<open>updateProperty\<close> leave the
  whole state as it is.  With a selection that matches no element, \<^verbatim>\<open>updateProperty\<close> leaves
  the whole state as it is, and so does \<^verbatim>\<open>deleteElement\<close> when the user declines; when the
  user confirms, \<^verbatim>\<open>deleteElement\<close> leaves the document as it is, clears the selection and
  pushes one history entry holding that document.
\<close>

theorem noop_without_target:
  "(\<not> truthy (selectedId s) \<longrightarrow> deleteElement c s = s \<and> updateProperty prop val s = s)
   \<and> (selectedId s = Some i \<and> i \<notin> set (map el_id (elements s)) \<longrightarrow>
        updateProperty prop val s = s
        \<and> deleteElement False s = s
        \<and> elements (deleteElement True s) = elements s
        \<and> (i \<noteq> [] \<longrightarrow>
             deleteElement True s
               = saveHistory (elements s) None (s\<lparr>selectedId := None\<rparr>)))"
proof -
  have a: "\<not> truthy (selectedId s) \<Longrightarrow> deleteElement c s = s \<and> updateProperty prop val s = s"
    by (simp add: deleteElement_def updateProperty_def)
  have b: "updateProperty prop val s = s \<and> deleteElement False s = s
        \<and> elements (deleteElement True s) = elements s
        \<and> (i \<noteq> [] \<longrightarrow>
             deleteElement True s = saveHistory (elements s) None (s\<lparr>selectedId := None\<rparr>))"
    if sel: "selectedId s = Some i" and abs: "i \<notin> set (map el_id (elements s))"
    using sel map_absent_id [OF abs] filter_absent_id [OF abs]
    by (simp add: deleteElement_def updateProperty_def Let_def saveHistory_frame truthy_Some)
  show ?thesis using a b by blast
qed

theorem noop_without_target_witness:
  "\<not> truthy (selectedId init)
   \<and> deleteElement True init = init \<and> updateProperty ''color'' ''red'' init = init
   \<and> selectedId ghost_state = Some ''ghost''
   \<and> ''ghost'' \<notin> set (map el_id (elements ghost_state))
   \<and> updateProperty ''color'' ''red'' ghost_state = ghost_state
   \<and> deleteElement False ghost_state = ghost_state
   \<and> elements (deleteElement True ghost_state) = elements ghost_state
   \<and> deleteElement True ghost_state = saveHistory [] None init"
proof -
  have g: "ghost_state\<lparr>selectedId := None\<rparr> = init"
    by (simp add: ghost_state_def init_def)
  show ?thesis
    using noop_without_target [of init True "''color''" "''red''" "''ghost''"]
      noop_without_target [of ghost_state True "''color''" "''red''" "''ghost''"] g
    by (simp add: ghost_state_def truthy_def saveHistory_frame init_def)
qed

lemma set_prop_fixed:
  "el_id (set_prop prop val e) = el_id e"
  "el_type (set_prop prop val e) = el_type e"
  "tagName (set_prop prop val e) = tagName e"
  by (simp_all add: set_prop_def)

lemma set_prop_style:
  "prop \<notin> {''content'', ''src'', ''alt''} \<Longrightarrow>
   set_prop prop val e = e\<lparr>style := AList.update prop val (style e)\<rparr>"
  by (simp add: set_prop_def)

lemma updateProperty_elements:
  "selectedId s = Some i \<Longrightarrow> i \<noteq> [] \<Longrightarrow>
   elements (updateProperty prop val s)
     = map (\<lambda>el. if el_id el = i then set_prop prop val el else el) (elements s)"
  by (simp add: updateProperty_def truthy_Some)

lemma updateProperty_rest:
  "history (updateProperty prop val s) = history s"
  "historyIndex (updateProperty prop val s) = historyIndex s"
  "selectedId (updateProperty prop val s) = selectedId s"
  "isEditingText (updateProperty prop val s) = isEditingText s"
  "isDragging (updateProperty prop val s) = isDragging s"
  "dragOffset (updateProperty prop val s) = dragOffset s"
  by (simp_all add: updateProperty_def)

text \<open>
  Claim C10.  With a non-empty selection, \<^verbatim>\<open>updateProperty\<close> keeps the length of the
  document and every element whose id is not the selection.  On an element whose id is the
  selection it sets the top-level field for \<^verbatim>\<open>content\<close>, \<^verbatim>\<open>src\<close> and \<^verbatim>\<open>alt\<close>, and otherwise
  sets the key \<open>prop\<close> of its style, keeping every other style key; id, type and tag name
  and every other field stay.  The history, its index and the selection are unchanged.
\<close>

theorem updateProperty_frame:
  assumes sel: "selectedId s = Some i" and ne: "i \<noteq> []"
  shows
    "length (elements (updateProperty prop val s)) = length (elements s)
     \<and> (\<forall>k < length (elements s).
          (el_id (elements s ! k) \<noteq> i \<longrightarrow>
             elements (updateProperty prop val s) ! k = elements s ! k)
        \<and> (el_id (elements s ! k) = i \<longrightarrow>
             el_id (elements (updateProperty prop val s) ! k) = el_id (elements s ! k)
           \<and> el_type (elements (updateProperty prop val s) ! k) = el_type (elements s ! k)
           \<and> tagName (elements (updateProperty prop val s) ! k) = tagName (elements s ! k)
           \<and> (prop = ''content'' \<longrightarrow>
                elements (updateProperty prop val s) ! k = (elements s ! k)\<lparr>content := Some val\<rparr>)
           \<and> (prop = ''src'' \<longrightarrow>
                elements (updateProperty prop val s) ! k = (elements s ! k)\<lparr>src := Some val\<rparr>)
           \<and> (prop = ''alt'' \<longrightarrow>
                elements (updateProperty prop val s) ! k = (elements s ! k)\<lparr>alt := Some val\<rparr>)
           \<and> (prop \<notin> {''content'', ''src'', ''alt''} \<longrightarrow>
                elements (updateProperty prop val s) ! k
                  = (elements s ! k)\<lparr>style := AList.update prop val (style (elements s ! k))\<rparr>
              \<and> map_of (style (elements (updateProperty prop val s) ! k)) prop = Some val
              \<and> (\<forall>q. q \<noteq> prop \<longrightarrow>
                    map_of (style (elements (updateProperty prop val s) ! k)) q
                      = map_of (style (elements s ! k)) q))))
     \<and> history (updateProperty prop val s) = history s
     \<and> historyIndex (updateProperty prop val s) = historyIndex s
     \<and> selectedId (updateProperty prop val s) = selectedId s"
proof -
  note els = updateProperty_elements [OF sel ne, of "prop" "val"]
  have len: "length (elements (updateProperty prop val s)) = length (elements s)"
    by (simp add: els)
  have other: "elements (updateProperty prop val s) ! k = elements s ! k"
    if "k < length (elements s)" "el_id (elements s ! k) \<noteq> i" for k
    using that by (simp add: els)
  have hit: "elements (updateProperty prop val s) ! k = set_prop prop val (elements s ! k)"
    if "k < length (elements s)" "el_id (elements s ! k) = i" for k
    using that by (simp add: els)
  have per:
    "(el_id e \<noteq> i \<longrightarrow> e' = e)
     \<and> (el_id e = i \<longrightarrow>
          el_id e' = el_id e \<and> el_type e' = el_type e \<and> tagName e' = tagName e
        \<and> (prop = ''content'' \<longrightarrow> e' = e\<lparr>content := Some val\<rparr>)
        \<and> (prop = ''src'' \<longrightarrow> e' = e\<lparr>src := Some val\<rparr>)
        \<and> (prop = ''alt'' \<longrightarrow> e' = e\<lparr>alt := Some val\<rparr>)
        \<and> (prop \<notin> {''content'', ''src'', ''alt''} \<longrightarrow>
             e' = e\<lparr>style := AList.update prop val (style e)\<rparr>
           \<and> map_of (style e') prop = Some val
           \<and> (\<forall>q. q \<noteq> prop \<longrightarrow> map_of (style e') q = map_of (style e) q)))"
    if k: "k < length (elements s)" and e: "e = elements s ! k"
      and e': "e' = elements (updateProperty prop val s) ! k" for k e e'
  proof (cases "el_id e = i")
    case True
    then have "e' = set_prop prop val e" using hit k e e' by simp
    then show ?thesis using True by (simp add: set_prop_def update_conv')
  next
    case False
    then have "e' = e" using other k e e' by simp
    then show ?thesis using False by simp
  qed
  show ?thesis
    using len per [OF _ refl refl] updateProperty_rest [of "prop" "val" s] by blast
qed

theorem updateProperty_frame_witness:
  "elements (updateProperty ''left'' ''10px'' (init\<lparr>elements := sample_doc, selectedId := Some ''img-8''\<rparr>))
     = [new_element TextType 7,
        (new_element ImageType 8)\<lparr>style := AList.update ''left'' ''10px'' (style (new_element ImageType 8))\<rparr>,
        new_element TextType 9]
   \<and> elements (updateProperty ''src'' ''a.png'' (init\<lparr>elements := sample_doc, selectedId := Some ''img-8''\<rparr>))
     = [new_element TextType 7, (new_element ImageType 8)\<lparr>src := Some ''a.png''\<rparr>,
        new_element TextType 9]
   \<and> history (updateProperty ''left'' ''10px'' (init\<lparr>elements := sample_doc, selectedId := Some ''img-8''\<rparr>)) = []
   \<and> historyIndex (updateProperty ''left'' ''10px'' (init\<lparr>elements := sample_doc, selectedId := Some ''img-8''\<rparr>)) = - 1"
proof -
  let ?s = "init\<lparr>elements := sample_doc, selectedId := Some ''img-8''\<rparr>"
  have ids: "el_id (new_element TextType 7) = ''text-7''" "el_id (new_element ImageType 8) = ''img-8''"
    "el_id (new_element TextType 9) = ''text-9''"
    by (simp_all add: new_element_def show_nat_digit digit_char_def)
  have sel: "selectedId ?s = Some ''img-8''" and ne: "''img-8'' \<noteq> []" by simp_all
  have a: "elements (updateProperty ''left'' ''10px'' ?s)
     = [new_element TextType 7,
        (new_element ImageType 8)\<lparr>style := AList.update ''left'' ''10px'' (style (new_element ImageType 8))\<rparr>,
        new_element TextType 9]"
    by (simp add: updateProperty_def truthy_def sample_doc_def ids set_prop_def)
  have b: "elements (updateProperty ''src'' ''a.png'' ?s)
     = [new_element TextType 7, (new_element ImageType 8)\<lparr>src := Some ''a.png''\<rparr>,
        new_element TextType 9]"
    by (simp add: updateProperty_def truthy_def sample_doc_def ids set_prop_def)
  show ?thesis
    using a b updateProperty_frame [OF sel ne, of "''left''" "''10px''"]
    by (simp add: init_def)
qed

section \<open>Properties of the parser\<close>

lemma map_of_carry:
  "p \<noteq> q \<Longrightarrow> map_of (carry b el q st) p = map_of st p"
  by (simp add: carry_def update_conv')

lemma baseStyle_position:
  "map_of (baseStyle b el i) ''position'' = Some (resolve b el ''position'' ''absolute'')"
  by (simp add: baseStyle_def map_of_carry)

lemma parseNode_position:
  "map_of (style (parseNode b now el i)) ''position'' = Some (resolve b el ''position'' ''absolute'')"
  by (simp add: parseNode_def update_conv' baseStyle_position)

lemma parseNode_img:
  assumes "node_tagName el = ''IMG''"
  shows "el_type (parseNode b now el i) = ImageType"
    and "src (parseNode b now el i) = Some (js_or_null (getAttribute el ''src'') [])"
    and "alt (parseNode b now el i) = Some (js_or_null (getAttribute el ''alt'') [])"
    and "map_of (style (parseNode b now el i)) ''width''
           = Some (js_or (inlineStyle b el ''width'') ''100px'')"
    and "map_of (style (parseNode b now el i)) ''height'' = Some ''auto''"
  using assms by (simp_all add: parseNode_def update_conv')

lemma tall_img_container:
  "container reference_browser tall_img_html
     = Some (Element ''div'' [(''class'', ''poster'')] [tall_img] [])"
  unfolding tall_img_html_def tall_img_def by code_simp

text \<open>
  Claim C5 fails on the code for the height.  The image below carries the inline height
  \<^verbatim>\<open>200px\<close>; the parsed element has the explicit width \<^verbatim>\<open>30px\<close>, and the height \<^verbatim>\<open>auto\<close>:
  line 96 writes the literal \<^verbatim>\<open>"auto"\<close> over the height that line 83 carried into
  \<^verbatim>\<open>baseStyle\<close>, where line 95 keeps an explicit width.
\<close>

theorem parse_img_height_ignored:
  "container reference_browser tall_img_html
     = Some (Element ''div'' [(''class'', ''poster'')] [tall_img] [])
   \<and> inlineStyle reference_browser tall_img ''height'' = ''200px''
   \<and> inlineStyle reference_browser tall_img ''width'' = ''30px''
   \<and> map (\<lambda>e. (el_type e, src e, alt e, map_of (style e) ''width'', map_of (style e) ''height''))
         (case parse reference_browser (\<lambda>i. 0) tall_img_html of Inl err \<Rightarrow> [] | Inr d \<Rightarrow> d)
       = [(ImageType, Some ''a.png'', Some [], Some ''30px'', Some ''auto'')]"
proof -
  have a: "inlineStyle reference_browser tall_img ''height'' = ''200px''"
    "inlineStyle reference_browser tall_img ''width'' = ''30px''"
    unfolding tall_img_def by code_simp+
  have t: "node_tagName tall_img = ''IMG''"
    unfolding tall_img_def by code_simp
  have g: "getAttribute tall_img ''src'' = Some ''a.png''" "getAttribute tall_img ''alt'' = None"
    by (simp_all add: tall_img_def getAttribute_def)
  have c: "children (Element ''div'' [(''class'', ''poster'')] [tall_img] []) = [tall_img]"
    by (simp add: children_def is_element_def tall_img_def)
  show ?thesis
    using parseNode_img [OF t, of reference_browser 0 0]
    by (simp add: tall_img_container a parse_def c g js_or_null_def js_or_def)
qed

section \<open>Properties of the position\<close>

lemma resolve_plain:
  "position_plain b el \<Longrightarrow> resolve b el ''position'' ''absolute'' = ''absolute''"
  by (auto simp: position_plain_def resolve_def js_or_def)

lemma parse_absolute:
  assumes "import_plain b html" and "parse b clock html = Inr d"
  shows "absolute_doc d"
proof -
  obtain p where p: "container b html = Some p"
    and d: "d = map (\<lambda>(i, node). parseNode b (clock i) node i) (enumerate 0 (children p))"
    using assms(2) by (auto simp: parse_def split: option.splits)
  have "list_all (position_plain b) (children p)"
    using assms(1) p by (simp add: import_plain_def)
  then have "position_plain b node" if "(i, node) \<in> set (enumerate 0 (children p))" for i node
    using that by (auto simp: list_all_iff in_set_enumerate_eq)
  then show ?thesis
    unfolding d absolute_doc_def
    by (auto simp: list_all_iff parseNode_position resolve_plain)
qed

lemma list_all_slice: "list_all P xs \<Longrightarrow> list_all P (js_slice0 xs e)"
  by (auto simp: js_slice0_def list_all_iff dest: in_set_takeD)

lemma saveHistory_absolute:
  "absolute_state s \<Longrightarrow> absolute_doc d \<Longrightarrow> absolute_state (saveHistory d sel s)"
  by (simp add: absolute_state_def saveHistory_def Let_def list_all_slice)

lemma absolute_state_elements:
  "absolute_state s \<Longrightarrow> absolute_doc d \<Longrightarrow> absolute_state (s\<lparr>elements := d\<rparr>)"
  by (simp add: absolute_state_def)

lemma absolute_state_frame:
  "absolute_state (s\<lparr>selectedId := x\<rparr>) = absolute_state s"
  "absolute_state (s\<lparr>isDragging := y\<rparr>) = absolute_state s"
  "absolute_state (s\<lparr>isEditingText := z\<rparr>) = absolute_state s"
  "absolute_state (s\<lparr>dragOffset := w\<rparr>) = absolute_state s"
  "absolute_state (s\<lparr>historyIndex := k\<rparr>) = absolute_state s"
  by (simp_all add: absolute_state_def)

lemma new_element_absolute: "map_of (style (new_element ty now)) ''position'' = Some ''absolute''"
  by (cases ty) (simp_all add: new_element_def)

lemma set_prop_position:
  "p = ''position'' \<longrightarrow> v = ''absolute'' \<Longrightarrow>
   map_of (style e) ''position'' = Some ''absolute'' \<Longrightarrow>
   map_of (style (set_prop p v e)) ''position'' = Some ''absolute''"
  by (auto simp: set_prop_def update_conv')

lemma updateProperty_absolute:
  assumes "p = ''position'' \<longrightarrow> v = ''absolute''" and "absolute_state s"
  shows "absolute_state (updateProperty p v s)"
proof -
  have "absolute_doc (map (\<lambda>el. if Some (el_id el) = selectedId s then set_prop p v el else el)
                        (elements s))"
    using assms by (auto simp: absolute_doc_def absolute_state_def list_all_iff set_prop_position)
  then show ?thesis
    using assms(2) by (simp add: updateProperty_def absolute_state_elements)
qed

lemma addElement_absolute: "absolute_state s \<Longrightarrow> absolute_state (addElement ty now s)"
  by (auto simp: addElement_def Let_def absolute_state_def absolute_doc_def new_element_absolute
      intro!: saveHistory_absolute [unfolded absolute_state_def absolute_doc_def])

lemma deleteElement_absolute: "absolute_state s \<Longrightarrow> absolute_state (deleteElement c s)"
  by (auto simp: deleteElement_def Let_def absolute_state_def absolute_doc_def list_all_iff
      intro!: saveHistory_absolute [unfolded absolute_state_def absolute_doc_def list_all_iff])

lemma handleMove_absolute: "absolute_state s \<Longrightarrow> absolute_state (handleMove x y l t s)"
  by (auto simp: handleMove_def Let_def absolute_state_def absolute_doc_def list_all_iff update_conv')

lemma handleMouseDown_absolute: "absolute_state s \<Longrightarrow> absolute_state (handleMouseDown i x y s)"
  by (auto simp: handleMouseDown_def Let_def absolute_state_frame split: option.splits)

lemma handleUp_absolute: "absolute_state s \<Longrightarrow> absolute_state (handleUp s)"
  by (auto simp: handleUp_def absolute_state_frame absolute_state_def intro!: saveHistory_absolute [unfolded absolute_state_def])

lemma handleDoubleClick_absolute: "absolute_state s \<Longrightarrow> absolute_state (handleDoubleClick i s)"
  by (auto simp: handleDoubleClick_def absolute_state_frame split: option.splits)

lemma handleTextBlur_absolute: "absolute_state s \<Longrightarrow> absolute_state (handleTextBlur t s)"
proof -
  assume a: "absolute_state s"
  have u: "absolute_state ((updateProperty ''content'' t s)\<lparr>isEditingText := False\<rparr>)"
    using updateProperty_absolute [of "''content''" t s] a by (simp add: absolute_state_frame)
  have d: "absolute_doc (elements s)" using a by (simp add: absolute_state_def)
  show ?thesis
    using a saveHistory_absolute [OF u d] by (simp add: handleTextBlur_def)
qed

lemma history_entry_absolute:
  "absolute_state s \<Longrightarrow> js_index (history s) k = Some h \<Longrightarrow> absolute_doc (entry_elements h)"
  by (auto simp: absolute_state_def js_index_def list_all_iff split: if_splits)

lemma restore_absolute:
  "absolute_state s \<Longrightarrow> js_index (history s) k = Some h \<Longrightarrow>
   absolute_state (s\<lparr>elements := entry_elements h, selectedId := x, historyIndex := j\<rparr>)"
  by (auto simp: absolute_state_def js_index_def list_all_iff split: if_splits)

lemma undo_absolute: "absolute_state s \<Longrightarrow> undo s = Inr s' \<Longrightarrow> absolute_state s'"
  by (auto simp: undo_def split: if_splits option.splits intro: restore_absolute)

lemma redo_absolute: "absolute_state s \<Longrightarrow> redo s = Inr s' \<Longrightarrow> absolute_state s'"
  by (auto simp: redo_def split: if_splits option.splits intro: restore_absolute)

lemma handleImport_absolute:
  "absolute_state s \<Longrightarrow> import_plain b html \<Longrightarrow> absolute_state (handleImport b clock html s)"
  by (auto simp: handleImport_def load_parsed_def absolute_state_frame split: sum.splits
      intro!: saveHistory_absolute absolute_state_elements dest: parse_absolute)

lemma step_absolute:
  "absolute_state s \<Longrightarrow> command_plain b c \<Longrightarrow> absolute_state (step b s c)"
proof (cases c)
  case (Import html clock)
  assume "absolute_state s" "command_plain b c"
  then show ?thesis using Import by (simp add: handleImport_absolute)
next
  case (Paste html clock)
  assume "absolute_state s" "command_plain b c"
  then show ?thesis using Paste
    by (auto simp: handlePaste_def handleImport_absolute split: option.splits)
next
  case (UpdateProperty p v)
  assume "absolute_state s" "command_plain b c"
  then show ?thesis using UpdateProperty by (simp add: updateProperty_absolute)
next
  case (ImageUpload u)
  assume "absolute_state s" "command_plain b c"
  then show ?thesis using ImageUpload
    by (simp add: handleImageUpload_def updateProperty_absolute)
next
  case Undo
  assume "absolute_state s" "command_plain b c"
  then show ?thesis using Undo by (auto split: sum.splits dest: undo_absolute)
next
  case Redo
  assume "absolute_state s" "command_plain b c"
  then show ?thesis using Redo by (auto split: sum.splits dest: redo_absolute)
qed (simp_all add: addElement_absolute deleteElement_absolute handleMove_absolute
      handleMouseDown_absolute handleUp_absolute handleDoubleClick_absolute
      handleTextBlur_absolute absolute_state_frame)

lemma run_absolute:
  "absolute_state s \<Longrightarrow> list_all (command_plain b) cmds \<Longrightarrow> absolute_state (run b s cmds)"
  unfolding run_def
  by (induction cmds arbitrary: s) (simp_all add: step_absolute)

lemma init_absolute: "absolute_state init"
  by (simp add: absolute_state_def absolute_doc_def init_def)

text \<open>
  Claim C4, as stated, fails: the parser takes the position an element carries.  Importing
  a paragraph with the inline position \<^verbatim>\<open>relative\<close> gives a document whose element has the
  position \<^verbatim>\<open>relative\<close>.
\<close>

theorem import_keeps_inline_position_counterexample:
  "map (\<lambda>e. map_of (style e) ''position'')
     (elements (run reference_browser init [Import relative_html (\<lambda>i. 0)]))
   = [Some ''relative'']"
  unfolding relative_html_def by code_simp

text \<open>
  Claim C4, amended.  Start from the empty editor and run any sequence of commands
  (import, paste, add, delete, property update, image upload, drag, inline text edit,
  undo, redo) in which every imported element leaves the position to the default (inline
  position \<^verbatim>\<open>absolute\<close>, or unset with the computed one unset or \<^verbatim>\<open>absolute\<close>) and no property
  update sets \<^verbatim>\<open>position\<close> to another value: then every element of the document has
  \<^verbatim>\<open>style.position = "absolute"\<close>.
\<close>

theorem position_stays_absolute:
  assumes "list_all (command_plain b) cmds"
  shows "absolute_doc (elements (run b init cmds))"
  using run_absolute [OF init_absolute assms] by (simp add: absolute_state_def)

theorem position_stays_absolute_witness:
  "list_all (command_plain reference_browser) sample_session
   \<and> absolute_doc (elements (run reference_browser init sample_session))"
proof -
  have p: "position_plain reference_browser tall_img"
    unfolding tall_img_def by code_simp
  have i: "import_plain reference_browser tall_img_html"
    using p by (simp add: import_plain_def tall_img_container children_def is_element_def tall_img_def)
  have ok: "list_all (command_plain reference_browser) sample_session"
    using i by (simp add: sample_session_def)
  show ?thesis using ok position_stays_absolute [OF ok] by simp
qed

section \<open>Properties of the sanitizer\<close>

text \<open>
  Claim C3 fails on the code for markup inside a \<^verbatim>\<open>template\<close> element.  The parser puts
  that markup into the template's contents; \<^verbatim>\<open>querySelectorAll\<close> lists descendants only, so
  neither loop of the sanitizer visits it, and \<^verbatim>\<open>innerHTML\<close> prints it back: the script
  element and the \<^verbatim>\<open>onerror\<close> attribute inside the template are in the output, while the
  \<^verbatim>\<open>onclick\<close> attribute and the script element outside of it are removed.
\<close>

theorem sanitize_skips_template_contents:
  "setInnerHTML reference_browser template_html
     = [template_node, Element ''p'' [(''onclick'', ''alert(3)'')] [TextNode ''ok''] [],
        Element ''script'' [] [TextNode ''alert(4)''] []]
   \<and> sanitize_nodes (setInnerHTML reference_browser template_html)
     = [template_node, Element ''p'' [] [TextNode ''ok''] []]
   \<and> sanitize reference_browser template_html
     = ''<template><script>alert(1)</script><img src=\"x\" onerror=\"alert(2)\"></template><p>ok</p>''"
  unfolding template_html_def template_node_def by code_simp

section \<open>Properties of the store\<close>

lemma alloc_facts:
  "alloc h x = (h', a) \<Longrightarrow> prefix h h' \<and> a = length h \<and> length h' = Suc (length h) \<and> lookup h' a = Some x"
  by (auto simp: alloc_def lookup_def)

lemma lookup_mono: "prefix h h' \<Longrightarrow> lookup h a = Some x \<Longrightarrow> lookup h' a = Some x"
  by (auto simp: lookup_def prefix_def nth_append split: if_splits)

lemma read_style_mono: "prefix h h' \<Longrightarrow> read_style h a = Some st \<Longrightarrow> read_style h' a = Some st"
  by (auto simp: read_style_def split: option.splits obj.splits dest: lookup_mono)

lemma read_array_mono: "prefix h h' \<Longrightarrow> read_array h a = Some r \<Longrightarrow> read_array h' a = Some r"
  by (auto simp: read_array_def split: option.splits obj.splits dest: lookup_mono)

lemma id_at_mono: "prefix h h' \<Longrightarrow> id_at h a = Some i \<Longrightarrow> id_at h' a = Some i"
  by (auto simp: id_at_def split: option.splits obj.splits dest: lookup_mono)

lemma read_element_mono:
  assumes p: "prefix h h'" and r: "read_element h a = Some e"
  shows "read_element h' a = Some e"
proof -
  obtain i ty c s al tn sa st where
    l: "lookup h a = Some (ElementObj i ty c s al tn sa)" and st: "read_style h sa = Some st"
    and e: "e = \<lparr>el_id = i, el_type = ty, content = c, src = s, alt = al, tagName = tn,
                  style = st\<rparr>"
    using r by (auto simp: read_element_def split: option.splits obj.splits)
  show ?thesis
    using lookup_mono [OF p l] read_style_mono [OF p st] e by (simp add: read_element_def)
qed

lemma read_all_mono:
  "(\<And>a x. f a = Some x \<Longrightarrow> g a = Some x) \<Longrightarrow> read_all f refs = Some xs \<Longrightarrow>
   read_all g refs = Some xs"
  by (induction refs arbitrary: xs) (auto simp: bind_eq_Some_conv)

lemma read_doc_mono: "prefix h h' \<Longrightarrow> read_doc h a = Some d \<Longrightarrow> read_doc h' a = Some d"
  by (auto simp: read_doc_def bind_eq_Some_conv
      dest: read_array_mono intro: read_all_mono read_element_mono)

lemma read_entry_mono:
  assumes p: "prefix h h'" and r: "read_entry h a = Some v"
  shows "read_entry h' a = Some v"
proof -
  obtain d sel els where
    l: "lookup h a = Some (EntryObj d sel)" and els: "read_doc h d = Some els"
    and v: "v = \<lparr>entry_elements = els, entry_selectedId = sel\<rparr>"
    using r by (auto simp: read_entry_def split: option.splits obj.splits)
  show ?thesis
    using lookup_mono [OF p l] read_doc_mono [OF p els] v by (simp add: read_entry_def)
qed

lemma prefix_trans: "prefix a b \<Longrightarrow> prefix b c \<Longrightarrow> prefix a c"
  by (auto simp: prefix_def)

lemma prefix_update: "prefix h h' \<Longrightarrow> length h \<le> k \<Longrightarrow> prefix h (h'[k := x])"
  by (auto simp: prefix_def list_update_append)

lemma store_element_prefix: "store_element h e = (h', a) \<Longrightarrow> prefix h h'"
  by (auto simp: store_element_def alloc_def split: prod.splits)

lemma store_elements_prefix: "store_elements h d = (h', refs) \<Longrightarrow> prefix h h'"
proof (induction d arbitrary: h h' refs)
  case Nil
  then show ?case by simp
next
  case (Cons e es)
  then show ?case
    by (auto split: prod.splits dest!: store_element_prefix intro: prefix_trans)
qed

lemma store_doc_prefix: "store_doc h d = (h', a) \<Longrightarrow> prefix h h'"
  by (auto simp: store_doc_def alloc_def split: prod.splits
      dest!: store_elements_prefix intro: prefix_trans)

lemma json_copy_prefix: "json_copy h a = Some (h', c) \<Longrightarrow> prefix h h'"
  by (auto simp: json_copy_def dest: store_doc_prefix)

lemma saveHistory_live_prefix:
  assumes "saveHistory_live d sel s = Some s'"
  shows "prefix (store s) (store s')"
proof -
  obtain hist h2 cp cur where
    c: "json_copy (store s @ [ArrayObj (js_slice0 hist (index_at s + 1))]) d = Some (h2, cp)"
    and s': "store s' = (h2 @ [EntryObj cp sel])[length (store s) := ArrayObj (cur @ [length h2])]"
    using assms
    by (auto simp: saveHistory_live_def bind_eq_Some_conv alloc_def split: prod.splits)
  have "prefix (store s) h2"
    using json_copy_prefix [OF c] by (auto simp: prefix_def)
  then have "prefix (store s) (h2 @ [EntryObj cp sel])"
    by (auto simp: prefix_def)
  then show ?thesis
    unfolding s' by (rule prefix_update) simp
qed

lemma map_refs_prefix:
  assumes "\<And>h a h' a'. f h a = Some (h', a') \<Longrightarrow> prefix h h'"
  shows "map_refs f h refs = Some (h', refs') \<Longrightarrow> prefix h h'"
proof (induction refs arbitrary: h h' refs')
  case Nil
  then show ?case by simp
next
  case (Cons a as)
  then show ?case
    by (auto simp: bind_eq_Some_conv split: prod.splits dest!: assms intro: prefix_trans)
qed

lemma set_prop_at_prefix: "set_prop_at p v h a = Some (h', a') \<Longrightarrow> prefix h h'"
  by (auto simp: set_prop_at_def alloc_def bind_eq_Some_conv
      split: option.splits obj.splits if_splits)

lemma move_at_prefix: "move_at x y h a = Some (h', a') \<Longrightarrow> prefix h h'"
  by (auto simp: move_at_def alloc_def bind_eq_Some_conv split: option.splits obj.splits)

lemma on_selected_prefix:
  assumes "\<And>h a h' a'. f h a = Some (h', a') \<Longrightarrow> prefix h h'"
  shows "on_selected sel f h a = Some (h', a') \<Longrightarrow> prefix h h'"
  by (auto simp: on_selected_def bind_eq_Some_conv split: if_splits dest: assms)

lemma map_elements_live_prefix:
  assumes "\<And>h a h' a'. f h a = Some (h', a') \<Longrightarrow> prefix h h'"
    and "map_elements_live f s = Some s'"
  shows "prefix (store s) (store s')"
proof -
  obtain refs h1 refs' where
    m: "map_refs (on_selected (selected s) f) (store s) refs = Some (h1, refs')"
    and s': "store s' = h1 @ [ArrayObj refs']"
    using assms(2)
    by (auto simp: map_elements_live_def bind_eq_Some_conv alloc_def split: prod.splits)
  have "prefix (store s) h1"
    using map_refs_prefix [OF on_selected_prefix [OF assms(1)] m] by simp
  then show ?thesis by (auto simp: s' prefix_def)
qed

lemma updateProperty_live_prefix:
  "updateProperty_live p v s = Some s' \<Longrightarrow> prefix (store s) (store s')"
  by (auto simp: updateProperty_live_def split: if_splits
      intro: map_elements_live_prefix [OF set_prop_at_prefix])

lemma handleMove_live_prefix:
  "handleMove_live x y l t s = Some s' \<Longrightarrow> prefix (store s) (store s')"
  by (auto simp: handleMove_live_def Let_def split: if_splits
      intro: map_elements_live_prefix [OF move_at_prefix])

lemma prefix_snoc: "prefix h h' \<Longrightarrow> prefix h (h' @ t)"
  by (auto simp: prefix_def)

lemma addElement_live_prefix:
  assumes "addElement_live ty now s = Some s'"
  shows "prefix (store s) (store s')"
proof -
  obtain h1 a refs where
    e: "store_element (store s) (new_element ty now) = (h1, a)"
    and sv: "saveHistory_live (length h1) (Some (el_id (new_element ty now)))
              (s\<lparr>store := h1 @ [ArrayObj (refs @ [a])], elements_at := length h1,
                  selected := Some (el_id (new_element ty now))\<rparr>) = Some s'"
    using assms
    by (auto simp: addElement_live_def bind_eq_Some_conv alloc_def split: prod.splits)
  have "prefix (store s) (h1 @ [ArrayObj (refs @ [a])])"
    using store_element_prefix [OF e] by (rule prefix_snoc)
  moreover have "prefix (h1 @ [ArrayObj (refs @ [a])]) (store s')"
    using saveHistory_live_prefix [OF sv] by simp
  ultimately show ?thesis by (rule prefix_trans)
qed

lemma deleteElement_live_prefix:
  assumes "deleteElement_live c s = Some s'"
  shows "prefix (store s) (store s')"
proof (cases "truthy (selected s) \<and> c")
  case False
  then show ?thesis using assms by (auto simp: deleteElement_live_def split: if_splits)
next
  case True
  then obtain kept where
    sv: "saveHistory_live (length (store s)) None
           (s\<lparr>store := store s @ [ArrayObj kept], elements_at := length (store s),
               selected := None\<rparr>) = Some s'"
    using assms
    by (auto simp: deleteElement_live_def bind_eq_Some_conv alloc_def split: prod.splits)
  show ?thesis
    using saveHistory_live_prefix [OF sv] by (auto simp: prefix_def)
qed

lemma restore_live_store:
  assumes "restore_live k s = Some s'"
  shows "store s' = store s"
proof -
  obtain ent where
    "(case lookup (store s) ent of
        Some (EntryObj d sel) \<Rightarrow> Some (s\<lparr>elements_at := d, selected := sel, index_at := k\<rparr>)
      | _ \<Rightarrow> None) = Some s'"
    using assms by (auto simp: restore_live_def bind_eq_Some_conv)
  then show ?thesis
    by (cases "lookup (store s) ent") (auto split: obj.splits)
qed

lemma handleImport_live_prefix:
  assumes "handleImport_live b clock html s = Some s'"
  shows "prefix (store s) (store s')"
proof -
  obtain parsed h1 arr where
    d: "store_doc (store s) parsed = (h1, arr)"
    and sv: "saveHistory_live arr None (s\<lparr>store := h1, elements_at := arr, selected := None\<rparr>) = Some s'"
    using assms by (auto simp: handleImport_live_def split: sum.splits prod.splits)
  have "prefix h1 (store s')"
    using saveHistory_live_prefix [OF sv] by simp
  with store_doc_prefix [OF d] show ?thesis by (rule prefix_trans)
qed

lemma handleTextBlur_live_prefix:
  assumes "handleTextBlur_live t s = Some s'"
  shows "prefix (store s) (store s')"
proof (cases "editing s \<and> truthy (selected s)")
  case False
  then show ?thesis using assms by (auto simp: handleTextBlur_live_def split: if_splits)
next
  case True
  then obtain s1 where
    u: "updateProperty_live ''content'' t s = Some s1"
    and sv: "saveHistory_live (elements_at s) (selected s) (s1\<lparr>editing := False\<rparr>) = Some s'"
    using assms by (auto simp: handleTextBlur_live_def bind_eq_Some_conv)
  have "prefix (store s1) (store s')"
    using saveHistory_live_prefix [OF sv] by simp
  with updateProperty_live_prefix [OF u] show ?thesis by (rule prefix_trans)
qed

lemma handler_live_prefix:
  "handler_live b c s = Some s' \<Longrightarrow> prefix (store s) (store s')"
proof (cases c)
  case (Paste html clock)
  assume "handler_live b c s = Some s'"
  then show ?thesis using Paste
    by (auto split: option.splits if_splits dest: handleImport_live_prefix)
next
  case (ImageUpload u)
  assume "handler_live b c s = Some s'"
  then show ?thesis using ImageUpload
    by (auto split: if_splits dest: updateProperty_live_prefix)
next
  case Undo
  assume "handler_live b c s = Some s'"
  then show ?thesis using Undo
    by (auto simp: undo_live_def split: if_splits dest: restore_live_store)
next
  case Redo
  assume "handler_live b c s = Some s'"
  then show ?thesis using Redo
    by (auto simp: redo_live_def bind_eq_Some_conv split: if_splits dest: restore_live_store)
next
  case (MouseDown i x y)
  assume "handler_live b c s = Some s'"
  then show ?thesis using MouseDown
    by (auto simp: handleMouseDown_live_def bind_eq_Some_conv split: if_splits option.splits)
next
  case MouseUp
  assume "handler_live b c s = Some s'"
  then show ?thesis using MouseUp
    by (auto simp: handleUp_live_def split: if_splits dest: saveHistory_live_prefix)
next
  case (DoubleClick i)
  assume "handler_live b c s = Some s'"
  then show ?thesis using DoubleClick
    by (auto simp: handleDoubleClick_live_def bind_eq_Some_conv split: if_splits option.splits)
qed (auto dest: handleImport_live_prefix addElement_live_prefix deleteElement_live_prefix
      updateProperty_live_prefix handleMove_live_prefix handleTextBlur_live_prefix)

lemma step_live_prefix: "prefix (store s) (store (step_live b s c))"
  by (auto simp: step_live_def split: option.splits dest: handler_live_prefix)

lemma run_live_prefix: "prefix (store s) (store (run_live b s cmds))"
  unfolding run_live_def
proof (induction cmds arbitrary: s)
  case Nil
  then show ?case by simp
next
  case (Cons c cs)
  have "prefix (store s) (store (step_live b s c))" by (rule step_live_prefix)
  also have "prefix \<dots> (store (foldl (step_live b) (step_live b s c) cs))" by (rule Cons.IH)
  finally show ?case by simp
qed


lemma lookup_update_other: "k \<noteq> a \<Longrightarrow> lookup (h[k := x]) a = lookup h a"
  by (simp add: lookup_def)

lemma lookup_update_same: "k < length h \<Longrightarrow> lookup (h[k := x]) k = Some x"
  by (simp add: lookup_def)

lemma read_style_update: "k \<noteq> a \<Longrightarrow> read_style (h[k := x]) a = read_style h a"
  by (simp add: read_style_def lookup_update_other)

lemma read_array_update: "k \<noteq> a \<Longrightarrow> read_array (h[k := x]) a = read_array h a"
  by (simp add: read_array_def lookup_update_other)

lemma element_cells_update:
  "k \<noteq> a \<Longrightarrow> element_cells (h[k := x]) a = element_cells h a"
  by (simp add: element_cells_def lookup_update_other)

lemma self_in_element_cells: "a \<in> set (element_cells h a)"
  by (auto simp: element_cells_def split: option.splits obj.splits)

lemma read_all_defined:
  "read_all f refs = Some d \<Longrightarrow> x \<in> set refs \<Longrightarrow> \<exists>y. f x = Some y"
  by (induction refs arbitrary: d) (auto simp: bind_eq_Some_conv)

lemma read_element_update:
  "k \<notin> set (element_cells h a) \<Longrightarrow> read_element (h[k := x]) a = read_element h a"
  by (cases "lookup h a")
     (auto simp: read_element_def element_cells_def lookup_update_other read_style_update
        split: obj.splits)

lemma read_all_cong: "(\<And>r. r \<in> set refs \<Longrightarrow> f r = g r) \<Longrightarrow> read_all f refs = read_all g refs"
  by (induction refs) auto

lemma doc_cells_array:
  "read_array h a = Some refs \<Longrightarrow> doc_cells h a = a # concat (map (element_cells h) refs)"
  by (simp add: doc_cells_def)

lemma read_doc_update:
  assumes "k \<notin> set (doc_cells h a)"
  shows "read_doc (h[k := x]) a = read_doc h a"
proof (cases "read_array h a")
  case None
  then show ?thesis using assms by (simp add: read_doc_def doc_cells_def read_array_update)
next
  case (Some refs)
  have ka: "k \<noteq> a" and kr: "\<And>r. r \<in> set refs \<Longrightarrow> k \<notin> set (element_cells h r)"
    using assms by (auto simp: doc_cells_array [OF Some])
  have "read_all (read_element (h[k := x])) refs = read_all (read_element h) refs"
    by (rule read_all_cong) (simp add: read_element_update kr)
  then show ?thesis
    using Some ka by (simp add: read_doc_def read_array_update)
qed

lemma doc_cells_update:
  assumes "k \<notin> set (doc_cells h a)"
  shows "doc_cells (h[k := x]) a = doc_cells h a"
proof (cases "read_array h a")
  case None
  then show ?thesis using assms by (simp add: doc_cells_def read_array_update)
next
  case (Some refs)
  have ka: "k \<noteq> a" and kr: "\<And>r. r \<in> set refs \<Longrightarrow> k \<notin> set (element_cells h r)"
    using assms by (auto simp: doc_cells_array [OF Some])
  have "k \<noteq> r" if "r \<in> set refs" for r
    using kr [OF that] self_in_element_cells [of r h] by auto
  then have m: "map (element_cells (h[k := x])) refs = map (element_cells h) refs"
    by (intro map_cong refl element_cells_update)
  show ?thesis
    using Some ka by (simp add: doc_cells_def read_array_update m)
qed

lemma element_cells_mono:
  "prefix h h' \<Longrightarrow> read_element h a = Some e \<Longrightarrow> element_cells h' a = element_cells h a"
  by (auto simp: read_element_def element_cells_def split: option.splits obj.splits
      dest: lookup_mono)

lemma store_element_read:
  assumes "store_element h e = (h', a)"
  shows "read_element h' a = Some e" and "element_cells h' a = [Suc (length h), length h]"
    and "length h' = Suc (Suc (length h))"
  using assms
  by (auto simp: store_element_def alloc_def read_element_def read_style_def lookup_def
      element_cells_def nth_append)

lemma store_elements_read:
  "store_elements h d = (h', refs) \<Longrightarrow>
   read_all (read_element h') refs = Some d
   \<and> (\<forall>r \<in> set refs. \<forall>c \<in> set (element_cells h' r). length h \<le> c)
   \<and> length h \<le> length h'"
proof (induction d arbitrary: h h' refs)
  case Nil
  then show ?case by simp
next
  case (Cons e es)
  obtain h1 a as where
    e: "store_element h e = (h1, a)" and es: "store_elements h1 es = (h', as)"
    and refs: "refs = a # as"
    using Cons.prems by (auto split: prod.splits)
  note ih = Cons.IH [OF es]
  have p: "prefix h1 h'" by (rule store_elements_prefix [OF es])
  have ra: "read_element h' a = Some e"
    by (rule read_element_mono [OF p store_element_read(1) [OF e]])
  have ca: "element_cells h' a = [Suc (length h), length h]"
    using element_cells_mono [OF p store_element_read(1) [OF e]] store_element_read(2) [OF e]
    by simp
  have rest: "\<forall>r \<in> set as. \<forall>c \<in> set (element_cells h' r). length h \<le> c"
    using ih store_element_read(3) [OF e] by fastforce
  show ?case
    using ih ra ca rest store_element_read(3) [OF e] by (simp add: refs)
qed

lemma store_doc_read:
  assumes "store_doc h d = (h', a)"
  shows "read_doc h' a = Some d" and "\<forall>c \<in> set (doc_cells h' a). length h \<le> c"
    and "prefix h h'"
proof -
  obtain h1 refs where
    es: "store_elements h d = (h1, refs)" and h': "h' = h1 @ [ArrayObj refs]"
    and a: "a = length h1"
    using assms by (auto simp: store_doc_def alloc_def split: prod.splits)
  note r = store_elements_read [OF es]
  have p: "prefix h1 h'" by (simp add: h')
  have arr: "read_array h' a = Some refs"
    by (simp add: read_array_def lookup_def h' a)
  have all: "read_all (read_element h') refs = Some d"
    using r by (auto intro: read_all_mono [OF read_element_mono [OF p]])
  show "read_doc h' a = Some d"
    by (simp add: read_doc_def arr all)
  have cells: "element_cells h' x = element_cells h1 x" if "x \<in> set refs" for x
  proof -
    have "read_all (read_element h1) refs = Some d" using r by simp
    from read_all_defined [OF this that] obtain y where "read_element h1 x = Some y" by blast
    then show ?thesis by (rule element_cells_mono [OF p])
  qed
  have m: "map (element_cells h') refs = map (element_cells h1) refs"
    by (intro map_cong refl cells)
  have dc: "doc_cells h' a = a # concat (map (element_cells h1) refs)"
    by (simp add: doc_cells_array [OF arr] m)
  show "\<forall>c \<in> set (doc_cells h' a). length h \<le> c"
    unfolding dc using r by (auto simp: a)
  show "prefix h h'"
    by (rule store_doc_prefix [OF assms])
qed


lemma doc_cells_mono:
  assumes p: "prefix h h'" and r: "read_doc h a = Some d"
  shows "doc_cells h' a = doc_cells h a"
proof -
  obtain refs where arr: "read_array h a = Some refs"
    and all: "read_all (read_element h) refs = Some d"
    using r by (auto simp: read_doc_def bind_eq_Some_conv)
  have "element_cells h' x = element_cells h x" if "x \<in> set refs" for x
  proof -
    from read_all_defined [OF all that] obtain y where "read_element h x = Some y" by blast
    then show ?thesis by (rule element_cells_mono [OF p])
  qed
  then have m: "map (element_cells h') refs = map (element_cells h) refs"
    by (intro map_cong refl)
  show ?thesis
    by (simp add: doc_cells_array [OF arr] doc_cells_array [OF read_array_mono [OF p arr]] m)
qed

lemma saveHistory_live_copy:
  assumes hist: "read_array (store s) (history_at s) = Some hist"
    and doc: "read_doc (store s) d = Some doc"
  shows "\<exists>s1 e. saveHistory_live d sel s = Some s1
           \<and> history_refs s1 = js_slice0 hist (index_at s + 1) @ [e]
           \<and> index_at s1 = int (length (history_refs s1)) - 1
           \<and> elements_at s1 = elements_at s
           \<and> read_entry (store s1) e = Some \<lparr>entry_elements = doc, entry_selectedId = sel\<rparr>
           \<and> (\<forall>c \<in> set (entry_cells (store s1) e). length (store s) < c)"
proof -
  define slice where "slice = js_slice0 hist (index_at s + 1)"
  define nh where "nh = length (store s)"
  define h1 where "h1 = store s @ [ArrayObj slice]"
  obtain h2 cp where sd: "store_doc h1 doc = (h2, cp)" by (cases "store_doc h1 doc")
  define ent where "ent = length h2"
  define h3 where "h3 = h2 @ [EntryObj cp sel]"
  define s1 where "s1 = s\<lparr>store := h3[nh := ArrayObj (slice @ [ent])], history_at := nh,
                          index_at := int (length (slice @ [ent])) - 1\<rparr>"
  have p01: "prefix (store s) h1" by (simp add: h1_def)
  have doc1: "read_doc h1 d = Some doc" by (rule read_doc_mono [OF p01 doc])
  have copy: "json_copy h1 d = Some (h2, cp)" by (simp add: json_copy_def doc1 sd)
  note rd = store_doc_read [OF sd]
  have p13: "prefix h1 h3" using rd(3) by (auto simp: h3_def prefix_def)
  have p23: "prefix h2 h3" by (simp add: h3_def)
  have len: "nh < length h1" "length h1 \<le> length h2" "length h2 < length h3"
    using rd(3) by (auto simp: h1_def nh_def h3_def prefix_def)
  have arr1: "read_array h1 nh = Some slice"
    by (simp add: read_array_def lookup_def h1_def nh_def)
  have arr3: "read_array h3 nh = Some slice" by (rule read_array_mono [OF p13 arr1])
  have run: "saveHistory_live d sel s = Some s1"
    using hist copy arr3
    by (simp add: saveHistory_live_def alloc_def s1_def slice_def h1_def nh_def h3_def ent_def)
  have refs: "history_refs s1 = slice @ [ent]"
    using len by (simp add: history_refs_def s1_def read_array_def lookup_update_same)
  have doc3: "read_doc h3 cp = Some doc" by (rule read_doc_mono [OF p23 rd(1)])
  have cells3: "doc_cells h3 cp = doc_cells h2 cp" by (rule doc_cells_mono [OF p23 rd(1)])
  have fresh: "\<forall>c \<in> set (doc_cells h3 cp). nh < c"
    using rd(2) len by (auto simp: cells3)
  then have out: "nh \<notin> set (doc_cells h3 cp)" by auto
  have le: "lookup (store s1) ent = Some (EntryObj cp sel)"
    using len by (simp add: s1_def lookup_update_other) (simp add: lookup_def h3_def ent_def)
  have entry: "read_entry (store s1) ent = Some \<lparr>entry_elements = doc, entry_selectedId = sel\<rparr>"
    using le read_doc_update [OF out] doc3 by (simp add: read_entry_def s1_def)
  have cells: "entry_cells (store s1) ent = ent # doc_cells h3 cp"
    using le doc_cells_update [OF out] by (simp add: entry_cells_def s1_def)
  have "\<forall>c \<in> set (entry_cells (store s1) ent). length (store s) < c"
    unfolding cells using fresh len by (auto simp: nh_def ent_def)
  then show ?thesis
    using run refs entry by (auto simp: slice_def s1_def)
qed

text \<open>
  Claim C6.  Where the history array and the document are readable, \<^verbatim>\<open>saveHistory\<close>
  succeeds; the entry it appends denotes the value the document has at that moment and
  consists of fresh cells only (the entry, its array, its elements and their style objects
  all lie beyond the store as it was), so it shares no object with the live document; and
  whatever commands run afterwards (property updates, drags, further pushes, undo, redo),
  every snapshot that was readable keeps its value, as the ones stored before the push do
  across the push.
\<close>

theorem snapshot_is_independent_copy:
  assumes "read_array (store s) (history_at s) = Some hist"
    and "read_doc (store s) d = Some doc"
  shows "\<exists>s1 e. saveHistory_live d sel s = Some s1
           \<and> history_refs s1 = js_slice0 hist (index_at s + 1) @ [e]
           \<and> read_entry (store s1) e = Some \<lparr>entry_elements = doc, entry_selectedId = sel\<rparr>
           \<and> (\<forall>c \<in> set (entry_cells (store s1) e). length (store s) < c)
           \<and> (\<forall>r v. read_entry (store s) r = Some v \<longrightarrow> read_entry (store s1) r = Some v)
           \<and> (\<forall>b cmds r v. read_entry (store s1) r = Some v \<longrightarrow>
                 read_entry (store (run_live b s1 cmds)) r = Some v)"
proof -
  obtain s1 e where
    run: "saveHistory_live d sel s = Some s1"
    and rest: "history_refs s1 = js_slice0 hist (index_at s + 1) @ [e]"
      "read_entry (store s1) e = Some \<lparr>entry_elements = doc, entry_selectedId = sel\<rparr>"
      "\<forall>c \<in> set (entry_cells (store s1) e). length (store s) < c"
    using saveHistory_live_copy [OF assms, of sel] by blast
  have before: "read_entry (store s1) r = Some v" if "read_entry (store s) r = Some v" for r v
    using read_entry_mono [OF saveHistory_live_prefix [OF run] that] .
  have after: "read_entry (store (run_live b s1 cmds)) r = Some v"
    if "read_entry (store s1) r = Some v" for b cmds r v
    using read_entry_mono [OF run_live_prefix that] .
  show ?thesis
    using run rest before after by blast
qed



theorem snapshot_is_independent_copy_witness:
  "read_array (store sample_live) (history_at sample_live) = Some [9]
   \<and> read_doc (store sample_live) (elements_at sample_live) = Some [new_element TextType 7]
   \<and> (case saveHistory_live (elements_at sample_live) None sample_live of
         None \<Rightarrow> False
       | Some s1 \<Rightarrow>
           history_refs s1 = [9, 14]
           \<and> read_entry (store s1) 14
               = Some \<lparr>entry_elements = [new_element TextType 7], entry_selectedId = None\<rparr>
           \<and> entry_cells (store s1) 14 = [14, 13, 12, 11]
           \<and> length (store sample_live) = 10
           \<and> read_entry (store (run_live reference_browser s1 sample_edits)) 14
               = Some \<lparr>entry_elements = [new_element TextType 7], entry_selectedId = None\<rparr>
           \<and> read_doc (store (run_live reference_browser s1 sample_edits))
                 (elements_at (run_live reference_browser s1 sample_edits))
               \<noteq> Some [new_element TextType 7])"
proof -
  have a: "read_array (store sample_live) (history_at sample_live) = Some [9]"
    unfolding sample_live_def by code_simp
  have b: "read_doc (store sample_live) (elements_at sample_live) = Some [new_element TextType 7]"
    unfolding sample_live_def by code_simp
  have c: "(case saveHistory_live (elements_at sample_live) None sample_live of
         None \<Rightarrow> False
       | Some s1 \<Rightarrow>
           history_refs s1 = [9, 14]
           \<and> read_entry (store s1) 14
               = Some \<lparr>entry_elements = [new_element TextType 7], entry_selectedId = None\<rparr>
           \<and> entry_cells (store s1) 14 = [14, 13, 12, 11]
           \<and> length (store sample_live) = 10
           \<and> read_entry (store (run_live reference_browser s1 sample_edits)) 14
               = Some \<lparr>entry_elements = [new_element TextType 7], entry_selectedId = None\<rparr>
           \<and> read_doc (store (run_live reference_browser s1 sample_edits))
                 (elements_at (run_live reference_browser s1 sample_edits))
               \<noteq> Some [new_element TextType 7])"
    unfolding sample_live_def sample_edits_def by code_simp
  show ?thesis
    using a b c snapshot_is_independent_copy [OF a b, of None] by blast
qed

section \<open>Properties of the round trip\<close>











lemma startsWith_on_class: "\<not> startsWith ''class'' ''on''"
  by simp























end
